theory Spec2Isabelle
  imports Complex_Main
begin

section \<open>PsicoTrain: the viewer and annotation state of app.js\<close>

text \<open>
  The application keeps one global object \<open>state\<close> and mutates it in place from event
  handlers. Each handler is modelled as a function from the state before to the state
  after. JavaScript numbers are modelled by exact numbers: page and question numbers and
  counters by \<open>int\<close>, pixel sizes and pointer coordinates by \<open>real\<close> (so the rounding
  error of IEEE doubles is not part of the model, nor is overflow, which takes magnitudes
  that no size of an element or an image reaches), and the zoom level, which the code can
  set to the result of a division by zero, by \<open>jsnum\<close> below. JavaScript objects used as
  dictionaries are maps over their own properties.
\<close>

subsection \<open>JavaScript numbers with their non-finite values\<close>

text \<open>
  A number is a real or one of \<open>Infinity\<close>, \<open>-Infinity\<close> and \<open>NaN\<close>. The operators
  follow IEEE 754 on these values and are exact on the reals. \<open>Num 0\<close> stands for both
  zeros; a zero divisor is taken as \<open>+0\<close>, which every divisor of the code below is when
  it is zero (the sizes of elements and images are non-negative integers, and a
  difference of equal numbers is \<open>+0\<close>).
\<close>

datatype jsnum = Num real | PosInfinity | NegInfinity | NaN

definition signed_infinity :: "real \<Rightarrow> jsnum" where
  "signed_infinity x = (if 0 < x then PosInfinity else if x < 0 then NegInfinity else NaN)"

fun js_neg :: "jsnum \<Rightarrow> jsnum" where
  "js_neg (Num a) = Num (- a)"
| "js_neg PosInfinity = NegInfinity"
| "js_neg NegInfinity = PosInfinity"
| "js_neg NaN = NaN"

fun js_add :: "jsnum \<Rightarrow> jsnum \<Rightarrow> jsnum" where
  "js_add (Num a) (Num b) = Num (a + b)"
| "js_add NaN _ = NaN"
| "js_add _ NaN = NaN"
| "js_add PosInfinity NegInfinity = NaN"
| "js_add NegInfinity PosInfinity = NaN"
| "js_add PosInfinity _ = PosInfinity"
| "js_add _ PosInfinity = PosInfinity"
| "js_add NegInfinity _ = NegInfinity"
| "js_add _ NegInfinity = NegInfinity"

definition js_sub :: "jsnum \<Rightarrow> jsnum \<Rightarrow> jsnum" where
  "js_sub a b = js_add a (js_neg b)"

fun js_mul :: "jsnum \<Rightarrow> jsnum \<Rightarrow> jsnum" where
  "js_mul (Num a) (Num b) = Num (a * b)"
| "js_mul NaN _ = NaN"
| "js_mul _ NaN = NaN"
| "js_mul PosInfinity (Num b) = signed_infinity b"
| "js_mul NegInfinity (Num b) = signed_infinity (- b)"
| "js_mul (Num a) PosInfinity = signed_infinity a"
| "js_mul (Num a) NegInfinity = signed_infinity (- a)"
| "js_mul PosInfinity PosInfinity = PosInfinity"
| "js_mul NegInfinity NegInfinity = PosInfinity"
| "js_mul PosInfinity NegInfinity = NegInfinity"
| "js_mul NegInfinity PosInfinity = NegInfinity"

fun js_div :: "jsnum \<Rightarrow> jsnum \<Rightarrow> jsnum" where
  "js_div (Num a) (Num b) = (if b = 0 then signed_infinity a else Num (a / b))"
| "js_div NaN _ = NaN"
| "js_div _ NaN = NaN"
| "js_div (Num a) _ = Num 0"
| "js_div PosInfinity (Num b) = (if b < 0 then NegInfinity else PosInfinity)"
| "js_div NegInfinity (Num b) = (if b < 0 then PosInfinity else NegInfinity)"
| "js_div _ _ = NaN"

text \<open>The comparison \<open>a > b\<close>: false as soon as one side is \<open>NaN\<close>.\<close>

fun js_gt :: "jsnum \<Rightarrow> jsnum \<Rightarrow> bool" where
  "js_gt (Num a) (Num b) = (a > b)"
| "js_gt NaN _ = False"
| "js_gt _ NaN = False"
| "js_gt _ PosInfinity = False"
| "js_gt PosInfinity _ = True"
| "js_gt NegInfinity _ = False"
| "js_gt _ NegInfinity = True"

fun Math_min :: "jsnum \<Rightarrow> jsnum \<Rightarrow> jsnum" where
  "Math_min (Num a) (Num b) = Num (min a b)"
| "Math_min NaN _ = NaN"
| "Math_min _ NaN = NaN"
| "Math_min NegInfinity _ = NegInfinity"
| "Math_min _ NegInfinity = NegInfinity"
| "Math_min PosInfinity b = b"
| "Math_min a PosInfinity = a"

fun Math_max :: "jsnum \<Rightarrow> jsnum \<Rightarrow> jsnum" where
  "Math_max (Num a) (Num b) = Num (max a b)"
| "Math_max NaN _ = NaN"
| "Math_max _ NaN = NaN"
| "Math_max PosInfinity _ = PosInfinity"
| "Math_max _ PosInfinity = PosInfinity"
| "Math_max NegInfinity b = b"
| "Math_max a NegInfinity = a"

text \<open>
  \<open>Math.round\<close> rounds a finite number to the nearest integer, halves upwards, and
  returns a non-finite one as it is.
\<close>

definition round_half_up :: "real \<Rightarrow> int" where
  "round_half_up x = \<lfloor>x + 1 / 2\<rfloor>"

fun Math_round :: "jsnum \<Rightarrow> jsnum" where
  "Math_round (Num x) = Num (real_of_int (round_half_up x))"
| "Math_round z = z"

definition Math_hypot :: "real \<Rightarrow> real \<Rightarrow> real" where
  "Math_hypot a b = sqrt (a\<^sup>2 + b\<^sup>2)"

subsection \<open>Data model\<close>

datatype js_error =
    TypeError      \<comment> \<open>a property is read from \<open>null\<close> or \<open>undefined\<close>\<close>
  | ZeroDivisor    \<comment> \<open>in \<open>getCanvasCoords\<close>, a bounding box of width or height 0: the
                       coordinates JavaScript then returns are not finite\<close>

text \<open>
  An exercise of the catalogue has no \<open>isPDF\<close> property, which reads as false; the
  exercise made for a loaded PDF file has \<open>isPDF: true\<close>.
\<close>

record exercise =
  name :: string
  total_pages :: int
  isPDF :: bool

record stats_rec =
  stat_correct :: int
  stat_incorrect :: int

record page_record =
  selected :: string
  correct :: "string option"
  wasCorrect :: "bool option"

text \<open>
  The drawing canvas element: its backing pixel size, the box reported by
  \<open>getBoundingClientRect()\<close> and the snapshot that \<open>toDataURL()\<close> returns.
\<close>

record canvas_el =
  canvas_width :: real
  canvas_height :: real
  rect_left :: real
  rect_top :: real
  rect_width :: real
  rect_height :: real
  toDataURL :: string

record drawing_state =
  brushSizes :: "string \<rightharpoonup> int"
  canvas :: "canvas_el option"
  ctx :: bool
  savedDrawings :: "string \<rightharpoonup> string"

text \<open>
  \<open>pageAnswers\<close> is not a property of the initial \<open>state\<close> object, hence the option.
  \<open>initialPinchDistance\<close> and \<open>initialZoomLevel\<close> are the two module-level variables of
  the pinch handlers.
\<close>

record app_state =
  answers :: "string \<rightharpoonup> (string \<rightharpoonup> (string \<rightharpoonup> string))"
  currentCategory :: "string option"
  currentExercise :: "exercise option"
  currentPage :: int
  zoomLevel :: jsnum
  stats :: stats_rec
  answeredPages :: "string \<rightharpoonup> (string \<rightharpoonup> page_record)"
  pageAnswers :: "(string \<rightharpoonup> (int \<rightharpoonup> string)) option"
  drawing :: drawing_state
  initialPinchDistance :: real
  initialZoomLevel :: jsnum

definition default_brushSizes :: "string \<rightharpoonup> int" where
  "default_brushSizes = [''pen'' \<mapsto> 4, ''highlighter'' \<mapsto> 12, ''eraser'' \<mapsto> 20]"

definition initial_state :: app_state where
  "initial_state =
     \<lparr> answers = Map.empty, currentCategory = None, currentExercise = None,
       currentPage = 1, zoomLevel = Num 1,
       stats = \<lparr> stat_correct = 0, stat_incorrect = 0 \<rparr>,
       answeredPages = Map.empty, pageAnswers = None,
       drawing = \<lparr> brushSizes = default_brushSizes, canvas = None, ctx = False,
                   savedDrawings = Map.empty \<rparr>,
       initialPinchDistance = 0, initialZoomLevel = Num 1 \<rparr>"

subsection \<open>Zoom\<close>

text \<open>
  The two properties asked of a stored zoom level; neither holds of a level that is not
  finite.
\<close>

definition in_zoom_range :: "real \<Rightarrow> bool" where
  "in_zoom_range l = (2 / 10 \<le> l \<and> l \<le> 4)"

definition is_tenth :: "real \<Rightarrow> bool" where
  "is_tenth l = (real_of_int \<lfloor>l * 10\<rfloor> = l * 10)"

definition zoom_in_bounds :: "jsnum \<Rightarrow> bool" where
  "zoom_in_bounds z = (case z of Num l \<Rightarrow> in_zoom_range l | _ \<Rightarrow> False)"

definition multiple_of_tenth :: "jsnum \<Rightarrow> bool" where
  "multiple_of_tenth z = (case z of Num l \<Rightarrow> is_tenth l | _ \<Rightarrow> False)"

text \<open>
  Each of the zoom functions ends with \<open>updateZoom()\<close>, which only touches the document.
\<close>

definition zoomIn :: "app_state \<Rightarrow> app_state" where
  "zoomIn s =
     (let s1 = s\<lparr>zoomLevel := Math_min (js_add (zoomLevel s) (Num (1 / 10))) (Num 4)\<rparr>
      in s1\<lparr>zoomLevel := js_div (Math_round (js_mul (zoomLevel s1) (Num 10))) (Num 10)\<rparr>)"

definition zoomOut :: "app_state \<Rightarrow> app_state" where
  "zoomOut s =
     (let s1 = s\<lparr>zoomLevel := Math_max (js_sub (zoomLevel s) (Num (1 / 10))) (Num (2 / 10))\<rparr>
      in s1\<lparr>zoomLevel := js_div (Math_round (js_mul (zoomLevel s1) (Num 10))) (Num 10)\<rparr>)"

definition resetZoom :: "app_state \<Rightarrow> app_state" where
  "resetZoom s = s\<lparr>zoomLevel := Num 1\<rparr>"

text \<open>
  A touch event on the document: whether the image container exists and contains the
  target, and the client coordinates of the active touches.
\<close>

record touch_event =
  in_container :: bool
  touch_points :: "(real \<times> real) list"

definition touchstart :: "touch_event \<Rightarrow> app_state \<Rightarrow> app_state" where
  "touchstart e s =
     (case touch_points e of
        [(x1, y1), (x2, y2)] \<Rightarrow>
          if in_container e
          then s\<lparr>initialPinchDistance := Math_hypot (x2 - x1) (y2 - y1),
                 initialZoomLevel := zoomLevel s\<rparr>
          else s
      | _ \<Rightarrow> s)"

definition touchmove :: "touch_event \<Rightarrow> app_state \<Rightarrow> app_state" where
  "touchmove e s =
     (case touch_points e of
        [(x1, y1), (x2, y2)] \<Rightarrow>
          if in_container e
          then (let currentDistance = Math_hypot (x2 - x1) (y2 - y1)
                in if initialPinchDistance s > 0
                   then (let scale = js_div (Num currentDistance) (Num (initialPinchDistance s));
                             s1 = s\<lparr>zoomLevel := Math_max (Num (2 / 10))
                                    (Math_min (Num 4) (js_mul (initialZoomLevel s) scale))\<rparr>
                         in s1\<lparr>zoomLevel :=
                               js_div (Math_round (js_mul (zoomLevel s1) (Num 10))) (Num 10)\<rparr>)
                   else s)
          else s
      | _ \<Rightarrow> s)"

text \<open>
  The two elements \<open>fitToScreen\<close> looks up: the image container with its
  \<open>(clientWidth, clientHeight)\<close> and the exercise image with its
  \<open>(naturalWidth, naturalHeight)\<close>; \<open>None\<close> when \<open>getElementById\<close> finds nothing. The
  function tests no divisor and always returns: an image that has not loaded has natural
  size \<open>0 \<times> 0\<close>, and the level stored is then not finite.
\<close>

record viewer_dom =
  imageContainer :: "(real \<times> real) option"
  exerciseImage :: "(real \<times> real) option"

definition fitToScreen :: "viewer_dom \<Rightarrow> app_state \<Rightarrow> app_state" where
  "fitToScreen d s =
     (case imageContainer d of
        None \<Rightarrow> s
      | Some (clientWidth, clientHeight) \<Rightarrow>
          (case exerciseImage d of
             None \<Rightarrow> s
           | Some (naturalWidth, naturalHeight) \<Rightarrow>
               (let containerWidth = clientWidth - 40;
                    containerHeight = clientHeight - 40;
                    imgRatio = js_div (Num naturalWidth) (Num naturalHeight);
                    containerRatio = js_div (Num containerWidth) (Num containerHeight)
                in if js_gt imgRatio containerRatio
                   then s\<lparr>zoomLevel := js_div (Num containerWidth) (Num naturalWidth)\<rparr>
                   else s\<lparr>zoomLevel := js_div (Num containerHeight) (Num naturalHeight)\<rparr>)))"

text \<open>
  The specification's formulation of the fit level: the smaller of the two candidate
  scale factors of the container less its margin.
\<close>

definition computeFitZoom_spec :: "real \<times> real \<Rightarrow> real \<times> real \<Rightarrow> real \<Rightarrow> real" where
  "computeFitZoom_spec containerSize contentNaturalSize margin =
     min ((fst containerSize - margin) / fst contentNaturalSize)
         ((snd containerSize - margin) / snd contentNaturalSize)"

subsection \<open>Pointer coordinates\<close>

text \<open>
  The event handed to \<open>getCanvasCoords\<close>: the touch list when the event has one, and
  the event's own \<open>clientX\<close> and \<open>clientY\<close> when defined.
\<close>

record pointer_event =
  touches :: "(real \<times> real) list option"
  clientX :: "real option"
  clientY :: "real option"

text \<open>
  The client coordinates \<open>getCanvasCoords\<close> settles on: the first touch, else the
  event's own coordinates, else none (the fallback branch).
\<close>

definition eventClient :: "pointer_event \<Rightarrow> (real \<times> real) option" where
  "eventClient e =
     (case touches e of
        Some (touch # _) \<Rightarrow> Some touch
      | _ \<Rightarrow> (case (clientX e, clientY e) of
                (Some x, Some y) \<Rightarrow> Some (x, y)
              | _ \<Rightarrow> None))"

definition getCanvasCoords :: "pointer_event \<Rightarrow> app_state \<Rightarrow> js_error + (real \<times> real)" where
  "getCanvasCoords e s =
     (case canvas (drawing s) of
        None \<Rightarrow> Inl TypeError
      | Some c \<Rightarrow>
          (case eventClient e of
                None \<Rightarrow> Inr (0, 0)
              | Some (cx, cy) \<Rightarrow>
                  if rect_width c = 0 \<or> rect_height c = 0 then Inl ZeroDivisor
                  else (let scaleX = canvas_width c / rect_width c;
                            scaleY = canvas_height c / rect_height c
                        in Inr ((cx - rect_left c) * scaleX, (cy - rect_top c) * scaleY))))"

subsection \<open>Strings of numbers and letters\<close>

text \<open>
  \<open>String(n)\<close> for an integer \<open>n\<close>: its decimal digits, with a leading minus sign when
  negative.
\<close>

definition digit_chars :: string where
  "digit_chars = ''0123456789''"

fun decimal :: "nat \<Rightarrow> string" where
  "decimal n =
     (if n < 10 then [digit_chars ! n]
      else decimal (n div 10) @ [digit_chars ! (n mod 10)])"

declare decimal.simps [simp del]

definition String_of_int :: "int \<Rightarrow> string" where
  "String_of_int i = (if i < 0 then CHR ''-'' # decimal (nat (- i)) else decimal (nat i))"

text \<open>\<open>toUpperCase\<close> on the letters \<open>a\<close> to \<open>z\<close>; every other character is kept.\<close>

definition upper_char :: "char \<Rightarrow> char" where
  "upper_char c =
     (case map_of (zip ''abcdefghijklmnopqrstuvwxyz'' ''ABCDEFGHIJKLMNOPQRSTUVWXYZ'') c of
        None \<Rightarrow> c
      | Some u \<Rightarrow> u)"

definition toUpperCase :: "string \<Rightarrow> string" where
  "toUpperCase str = map upper_char str"

subsection \<open>The answer panel: \<open>selectOption\<close>\<close>

text \<open>
  The panel answers of the current exercise, one option per question number. Reading
  \<open>state.currentExercise.name\<close> throws when no exercise is open. The two initialising
  statements create the outer and the inner object when missing.
\<close>

definition getExerciseAnswers :: "app_state \<Rightarrow> string \<Rightarrow> (int \<rightharpoonup> string)" where
  "getExerciseAnswers s exerciseName =
     (case pageAnswers s of
        None \<Rightarrow> Map.empty
      | Some pa \<Rightarrow> (case pa exerciseName of None \<Rightarrow> Map.empty | Some m \<Rightarrow> m))"

definition selectOption :: "int \<Rightarrow> string \<Rightarrow> app_state \<Rightarrow> js_error + app_state" where
  "selectOption questionNum opt s =
     (case currentExercise s of
        None \<Rightarrow> Inl TypeError
      | Some ex \<Rightarrow>
          (let exerciseName = name ex;
               pa = (case pageAnswers s of None \<Rightarrow> Map.empty | Some p \<Rightarrow> p);
               m = (case pa exerciseName of None \<Rightarrow> Map.empty | Some q \<Rightarrow> q);
               currentAnswer = m questionNum;
               m' = (if currentAnswer = Some opt then m(questionNum := None)
                     else m(questionNum \<mapsto> opt))
           in Inr (s\<lparr>pageAnswers := Some (pa(exerciseName \<mapsto> m'))\<rparr>)))"

subsection \<open>The committed page answers: \<open>selectAnswer\<close>\<close>

text \<open>
  What \<open>selectAnswer\<close> needs of the document: whether an answer button with a given
  \<open>data-answer\<close> exists, and whether the feedback element exists. The selected button and
  the feedback element are dereferenced before the state is touched, so a missing one
  throws and leaves the state as it was. Saving to local storage and refreshing the
  counters on screen come after the update of \<open>state\<close> and are not modelled.
\<close>

record answer_dom =
  answer_btn :: "string \<Rightarrow> bool"
  feedback :: bool

definition pageKey_of :: "app_state \<Rightarrow> string" where
  "pageKey_of s = String_of_int (currentPage s)"

definition categoryName_of :: "app_state \<Rightarrow> string" where
  "categoryName_of s = (case currentCategory s of None \<Rightarrow> ''null'' | Some c \<Rightarrow> c)"

text \<open>The answer-key lookup; an empty string counts as no answer, as it is falsy.\<close>

definition lookupCorrectAnswer :: "app_state \<Rightarrow> string \<Rightarrow> string option" where
  "lookupCorrectAnswer s exerciseName =
     (case answers s (categoryName_of s) of
        None \<Rightarrow> None
      | Some byExercise \<Rightarrow>
          (case byExercise exerciseName of
             None \<Rightarrow> None
           | Some byPage \<Rightarrow>
               (case byPage (pageKey_of s) of
                  None \<Rightarrow> None
                | Some k \<Rightarrow> if k = [] then None else Some (toUpperCase k))))"

text \<open>
  The committed record of the current page of an exercise, as \<open>checkPreviousAnswer\<close>
  and the guard of \<open>selectAnswer\<close> read it.
\<close>

definition previousAnswer :: "app_state \<Rightarrow> string \<Rightarrow> page_record option" where
  "previousAnswer s exerciseName =
     (case answeredPages s exerciseName of
        None \<Rightarrow> None
      | Some byPage \<Rightarrow> byPage (pageKey_of s))"

definition alreadyAnswered :: "app_state \<Rightarrow> string \<Rightarrow> bool" where
  "alreadyAnswered s exerciseName = (previousAnswer s exerciseName \<noteq> None)"

definition selectAnswer :: "answer_dom \<Rightarrow> string \<Rightarrow> app_state \<Rightarrow> js_error + app_state" where
  "selectAnswer d answer s =
     (case currentExercise s of
        None \<Rightarrow> Inl TypeError
      | Some ex \<Rightarrow>
          (let exerciseName = name ex
           in if alreadyAnswered s exerciseName then Inr s
              else (let correctAnswer = lookupCorrectAnswer s exerciseName;
                        isCorrect = (case correctAnswer of
                                       None \<Rightarrow> None
                                     | Some ca \<Rightarrow> Some (answer = ca))
                    in if \<not> answer_btn d answer \<or> \<not> feedback d then Inl TypeError
                       else (let st = stats s;
                                 st' = (case isCorrect of
                                          Some True \<Rightarrow> st\<lparr>stat_correct := stat_correct st + 1\<rparr>
                                        | Some False \<Rightarrow> st\<lparr>stat_incorrect := stat_incorrect st + 1\<rparr>
                                        | None \<Rightarrow> st);
                                 byPage = (case answeredPages s exerciseName of
                                             None \<Rightarrow> Map.empty
                                           | Some m \<Rightarrow> m);
                                 entry = \<lparr> selected = answer, correct = correctAnswer,
                                           wasCorrect = isCorrect \<rparr>
                             in Inr (s\<lparr>stats := st',
                                      answeredPages := (answeredPages s)
                                        (exerciseName \<mapsto> byPage(pageKey_of s \<mapsto> entry))\<rparr>)))))"

subsection \<open>Page navigation\<close>

text \<open>
  \<open>prevPage\<close> and \<open>nextPage\<close> are declared first for the exercises of the catalogue;
  further down the script keeps these functions as \<open>originalPrevPage\<close> and
  \<open>originalNextPage\<close> and binds both names again to wrappers for loaded PDF files. The
  reload of the page image that follows the change of \<open>currentPage\<close> only touches the
  document. \<open>originalNextPage\<close> reads \<open>total_pages\<close> of the current exercise and throws
  when there is none.
\<close>

definition originalPrevPage :: "app_state \<Rightarrow> app_state" where
  "originalPrevPage s =
     (if currentPage s > 1 then s\<lparr>currentPage := currentPage s - 1\<rparr> else s)"

definition originalNextPage :: "app_state \<Rightarrow> js_error + app_state" where
  "originalNextPage s =
     (case currentExercise s of
        None \<Rightarrow> Inl TypeError
      | Some ex \<Rightarrow>
          if currentPage s < total_pages ex then Inr (s\<lparr>currentPage := currentPage s + 1\<rparr>)
          else Inr s)"

text \<open>
  The module-level object \<open>loadedPDF\<close>: whether a document is loaded, its number of
  pages, its own current page and the cache of rendered pages (data URLs by page number).
\<close>

record loaded_pdf =
  pdf_document :: bool
  totalPages :: int
  pdf_currentPage :: int
  pageCache :: "int \<rightharpoonup> string"

text \<open>
  What rendering meets outside the script: the data URL the PDF library and the temporary
  canvas produce for a page, \<open>None\<close> when one of its promises rejects; and whether the
  image, the page indicator and the two navigation buttons exist. A step of an
  asynchronous function is taken to run to its end before the next event.
\<close>

record pdf_env =
  rendered :: "int \<Rightarrow> string option"
  viewer_elements :: bool

definition cached :: "loaded_pdf \<Rightarrow> int \<Rightarrow> bool" where
  "cached pdf pageNum =
     (case pageCache pdf pageNum of None \<Rightarrow> False | Some imageData \<Rightarrow> imageData \<noteq> [])"

text \<open>
  \<open>renderPDFPage\<close> does nothing without a document. A page found in the cache is shown and the function returns; any
  other page is rendered, stored in the cache and shown, and only then do
  \<open>loadedPDF.currentPage\<close> and \<open>state.currentPage\<close> become the page. Everything runs
  inside a \<open>try\<close>, so a rejected promise or a missing element ends the function where it
  happens.
\<close>

definition renderPDFPage ::
    "pdf_env \<Rightarrow> int \<Rightarrow> loaded_pdf \<times> app_state \<Rightarrow> loaded_pdf \<times> app_state" where
  "renderPDFPage env pageNum ps =
     (case ps of (pdf, s) \<Rightarrow>
        if \<not> pdf_document pdf then (pdf, s)
        else if cached pdf pageNum then (pdf, s)
        else (case rendered env pageNum of
                None \<Rightarrow> (pdf, s)
              | Some imageData \<Rightarrow>
                  (let pdf1 = pdf\<lparr>pageCache := (pageCache pdf)(pageNum \<mapsto> imageData)\<rparr>
                   in if \<not> viewer_elements env then (pdf1, s)
                      else (pdf1\<lparr>pdf_currentPage := pageNum\<rparr>, s\<lparr>currentPage := pageNum\<rparr>))))"

definition preloadOne :: "pdf_env \<Rightarrow> int \<Rightarrow> loaded_pdf \<Rightarrow> loaded_pdf" where
  "preloadOne env pageNum pdf =
     (case rendered env pageNum of
        None \<Rightarrow> pdf
      | Some imageData \<Rightarrow> pdf\<lparr>pageCache := (pageCache pdf)(pageNum \<mapsto> imageData)\<rparr>)"

definition preloadAdjacentPages :: "pdf_env \<Rightarrow> int \<Rightarrow> loaded_pdf \<Rightarrow> loaded_pdf" where
  "preloadAdjacentPages env page pdf =
     (if \<not> pdf_document pdf then pdf
      else (let pagesToPreload =
                  (if page > 1 \<and> \<not> cached pdf (page - 1) then [page - 1] else []) @
                  (if page < totalPages pdf \<and> \<not> cached pdf (page + 1) then [page + 1] else [])
            in fold (preloadOne env) pagesToPreload pdf))"

definition pdfMode :: "loaded_pdf \<Rightarrow> app_state \<Rightarrow> bool" where
  "pdfMode pdf s =
     (pdf_document pdf \<and> (case currentExercise s of None \<Rightarrow> False | Some ex \<Rightarrow> isPDF ex))"

text \<open>
  The wrappers bound to \<open>prevPage\<close> and \<open>nextPage\<close>. With a document loaded and an
  exercise marked \<open>isPDF\<close> they render the neighbouring page of \<open>loadedPDF.currentPage\<close>
  and then preload around the page \<open>loadedPDF\<close> is on; otherwise they call the original
  functions.
\<close>

definition prevPage :: "pdf_env \<Rightarrow> loaded_pdf \<times> app_state \<Rightarrow> loaded_pdf \<times> app_state" where
  "prevPage env ps =
     (case ps of (pdf, s) \<Rightarrow>
        if pdfMode pdf s
        then (if pdf_currentPage pdf > 1
              then (case renderPDFPage env (pdf_currentPage pdf - 1) (pdf, s) of
                      (pdf1, s1) \<Rightarrow> (preloadAdjacentPages env (pdf_currentPage pdf1) pdf1, s1))
              else (pdf, s))
        else (pdf, originalPrevPage s))"

definition nextPage ::
    "pdf_env \<Rightarrow> loaded_pdf \<times> app_state \<Rightarrow> js_error + loaded_pdf \<times> app_state" where
  "nextPage env ps =
     (case ps of (pdf, s) \<Rightarrow>
        if pdfMode pdf s
        then (if pdf_currentPage pdf < totalPages pdf
              then (case renderPDFPage env (pdf_currentPage pdf + 1) (pdf, s) of
                      (pdf1, s1) \<Rightarrow>
                        Inr (preloadAdjacentPages env (pdf_currentPage pdf1) pdf1, s1))
              else Inr (pdf, s))
        else (case originalNextPage s of
                Inl err \<Rightarrow> Inl err
              | Inr s1 \<Rightarrow> Inr (pdf, s1)))"

subsection \<open>Drawings per page\<close>

definition drawingKey :: "string \<Rightarrow> int \<Rightarrow> string" where
  "drawingKey exerciseName page = exerciseName @ ''_'' @ String_of_int page"

text \<open>
  \<open>saveDrawing\<close> stores the snapshot of the canvas under the key of the current exercise
  and page; the copy written to local storage afterwards is inside a \<open>try\<close> and does not
  change \<open>state\<close>.
\<close>

definition saveDrawing :: "app_state \<Rightarrow> app_state" where
  "saveDrawing s =
     (case currentExercise s of
        None \<Rightarrow> s
      | Some ex \<Rightarrow>
          (case canvas (drawing s) of
             None \<Rightarrow> s
           | Some c \<Rightarrow>
               (let key = drawingKey (name ex) (currentPage s)
                in s\<lparr>drawing := (drawing s)
                      \<lparr>savedDrawings := (savedDrawings (drawing s))(key \<mapsto> toDataURL c)\<rparr>\<rparr>)))"

text \<open>
  \<open>restoreDrawing\<close> starts loading the stored snapshot, which is drawn at the origin once
  decoded; the result is the snapshot handed to the image, \<open>None\<close> when nothing is drawn.
\<close>

definition restoreDrawing :: "app_state \<Rightarrow> string option" where
  "restoreDrawing s =
     (case currentExercise s of
        None \<Rightarrow> None
      | Some ex \<Rightarrow>
          (case canvas (drawing s) of
             None \<Rightarrow> None
           | Some c \<Rightarrow>
               if \<not> ctx (drawing s) then None
               else (let key = drawingKey (name ex) (currentPage s)
                     in case savedDrawings (drawing s) key of
                          None \<Rightarrow> None
                        | Some savedData \<Rightarrow> if savedData = [] then None else Some savedData)))"

subsection \<open>Brush widths\<close>

text \<open>
  The item \<open>psicotrain_brush_sizes\<close> of local storage as \<open>loadBrushSizes\<close> meets it:
  missing (or empty), not parseable as JSON, or the object of widths that
  \<open>saveBrushSizes\<close> wrote.
\<close>

datatype stored_sizes = NoItem | Unparsable | Sizes "string \<rightharpoonup> int"

definition loadBrushSizes :: "stored_sizes \<Rightarrow> app_state \<Rightarrow> app_state" where
  "loadBrushSizes saved s =
     (case saved of
        NoItem \<Rightarrow> s
      | Unparsable \<Rightarrow> s
      | Sizes sizes \<Rightarrow>
          s\<lparr>drawing := (drawing s)\<lparr>brushSizes := brushSizes (drawing s) ++ sizes\<rparr>\<rparr>)"

section \<open>Example inputs\<close>

text \<open>A two-finger pinch that doubles the distance recorded when the gesture began.\<close>

definition pinch_event :: touch_event where
  "pinch_event = \<lparr>in_container = True, touch_points = [(0, 0), (6, 8)]\<rparr>"

definition pinch_state :: app_state where
  "pinch_state = initial_state\<lparr>initialPinchDistance := 5, initialZoomLevel := Num 1\<rparr>"

text \<open>
  A canvas of \<open>800 \<times> 600\<close> pixels displayed in a box of \<open>400 \<times> 300\<close> at \<open>(10, 20)\<close>, a
  mouse event at given client coordinates, and an exercise of three pages opened in the
  category \<open>Verbal\<close>, without and with the canvas attached.
\<close>

definition example_canvas :: canvas_el where
  "example_canvas = \<lparr>canvas_width = 800, canvas_height = 600, rect_left = 10, rect_top = 20,
     rect_width = 400, rect_height = 300, toDataURL = ''data:image/png;base64,AAAA''\<rparr>"

definition mouse_at :: "real \<Rightarrow> real \<Rightarrow> pointer_event" where
  "mouse_at x y = \<lparr>touches = None, clientX = Some x, clientY = Some y\<rparr>"

definition example_exercise :: exercise where
  "example_exercise = \<lparr>name = ''Series 1'', total_pages = 3, isPDF = False\<rparr>"

definition viewer_state :: app_state where
  "viewer_state = initial_state\<lparr>currentCategory := Some ''Verbal'',
     currentExercise := Some example_exercise\<rparr>"

definition canvas_state :: app_state where
  "canvas_state = viewer_state\<lparr>drawing := (drawing viewer_state)\<lparr>canvas := Some example_canvas, ctx := True\<rparr>\<rparr>"

text \<open>
  A document that has the feedback element and a button for every letter asked for; the
  opened exercise with an answer key for its first page; and the state expected after a
  commit on that page.
\<close>

definition answer_page :: answer_dom where
  "answer_page = \<lparr>answer_btn = (\<lambda>a. True), feedback = True\<rparr>"

definition keyed_state :: "string \<Rightarrow> app_state" where
  "keyed_state k = viewer_state\<lparr>answers := [''Verbal'' \<mapsto> [''Series 1'' \<mapsto> [''1'' \<mapsto> k]]]\<rparr>"

definition committed_state :: "app_state \<Rightarrow> int \<Rightarrow> int \<Rightarrow> page_record \<Rightarrow> app_state" where
  "committed_state s c i r =
     s\<lparr>stats := \<lparr>stat_correct = c, stat_incorrect = i\<rparr>,
       answeredPages := [''Series 1'' \<mapsto> [''1'' \<mapsto> r]]\<rparr>"

text \<open>
  A PDF file of three pages right after loading: page 1 is shown and cached, and
  \<open>preloadAdjacentPages(1)\<close> has added page 2 to the cache. Every page renders and all the
  elements of the viewer exist.
\<close>

definition pdf_exercise :: exercise where
  "pdf_exercise = \<lparr>name = ''Booklet'', total_pages = 3, isPDF = True\<rparr>"

definition pdf_viewer_state :: app_state where
  "pdf_viewer_state = initial_state\<lparr>currentExercise := Some pdf_exercise\<rparr>"

definition pdf_rendering :: pdf_env where
  "pdf_rendering = \<lparr>rendered = (\<lambda>pageNum. Some (''data:image/png;page='' @ String_of_int pageNum)),
     viewer_elements = True\<rparr>"

definition pdf_first_page :: loaded_pdf where
  "pdf_first_page = \<lparr>pdf_document = True, totalPages = 3, pdf_currentPage = 1,
     pageCache = [1 \<mapsto> ''data:image/png;page=1'']\<rparr>"

definition pdf_preloaded :: loaded_pdf where
  "pdf_preloaded = \<lparr>pdf_document = True, totalPages = 3, pdf_currentPage = 1,
     pageCache = [1 \<mapsto> ''data:image/png;page=1'', 2 \<mapsto> ''data:image/png;page=2'']\<rparr>"

definition pdf_second_page :: loaded_pdf where
  "pdf_second_page = \<lparr>pdf_document = True, totalPages = 3, pdf_currentPage = 2,
     pageCache = [1 \<mapsto> ''data:image/png;page=1'', 2 \<mapsto> ''data:image/png;page=2'',
                  3 \<mapsto> ''data:image/png;page=3'']\<rparr>"

section \<open>Properties\<close>

subsection \<open>Rounding to one decimal place\<close>

lemma is_tenth_iff: "is_tenth l \<longleftrightarrow> (\<exists>k::int. l = real_of_int k / 10)"
proof
  assume "is_tenth l"
  then have "l = real_of_int \<lfloor>l * 10\<rfloor> / 10" unfolding is_tenth_def by linarith
  then show "\<exists>k::int. l = real_of_int k / 10" ..
next
  assume "\<exists>k::int. l = real_of_int k / 10"
  then obtain k :: int where "l = real_of_int k / 10" ..
  then show "is_tenth l" by (simp add: is_tenth_def)
qed

lemma quantize_tenth: "is_tenth (real_of_int (round_half_up x) / 10)"
  by (simp add: is_tenth_def)

lemma round_half_up_mono: "x \<le> y \<Longrightarrow> round_half_up x \<le> round_half_up y"
  unfolding round_half_up_def by (intro floor_mono) simp

lemma round_half_up_of_int: "round_half_up (real_of_int k) = k"
  unfolding round_half_up_def by linarith

lemma quantize_upper:
  assumes "x \<le> 4"
  shows "real_of_int (round_half_up (x * 10)) / 10 \<le> 4"
proof -
  have "round_half_up (x * 10) \<le> round_half_up (real_of_int 40)"
    using assms by (intro round_half_up_mono) simp
  then have "round_half_up (x * 10) \<le> 40" by (simp only: round_half_up_of_int)
  then have "real_of_int (round_half_up (x * 10)) \<le> 40" by linarith
  then show ?thesis by simp
qed

lemma quantize_lower:
  assumes "2 / 10 \<le> x"
  shows "2 / 10 \<le> real_of_int (round_half_up (x * 10)) / 10"
proof -
  have "round_half_up (real_of_int 2) \<le> round_half_up (x * 10)"
    using assms by (intro round_half_up_mono) simp
  then have "2 \<le> round_half_up (x * 10)" by (simp only: round_half_up_of_int)
  then have "2 \<le> real_of_int (round_half_up (x * 10))" by linarith
  then show ?thesis by simp
qed

lemma quantize_bounds:
  assumes "2 / 10 \<le> x" and "x \<le> 4"
  shows "in_zoom_range (real_of_int (round_half_up (x * 10)) / 10)"
  using quantize_lower [OF assms(1)] quantize_upper [OF assms(2)]
  by (simp add: in_zoom_range_def)

lemma quantize_fixed:
  assumes "is_tenth x"
  shows "real_of_int (round_half_up (x * 10)) / 10 = x"
proof -
  from assms have eq: "x * 10 = real_of_int \<lfloor>x * 10\<rfloor>"
    unfolding is_tenth_def by (rule sym)
  then have "round_half_up (x * 10) = \<lfloor>x * 10\<rfloor>" by (metis round_half_up_of_int)
  with eq show ?thesis by linarith
qed

lemma is_tenth_add: "is_tenth x \<Longrightarrow> is_tenth (x + 1 / 10)"
  unfolding is_tenth_iff
proof -
  assume "\<exists>k::int. x = real_of_int k / 10"
  then obtain k :: int where "x = real_of_int k / 10" ..
  then have "x + 1 / 10 = real_of_int (k + 1) / 10" by simp
  then show "\<exists>k::int. x + 1 / 10 = real_of_int k / 10" ..
qed

lemma is_tenth_sub: "is_tenth x \<Longrightarrow> is_tenth (x - 1 / 10)"
  unfolding is_tenth_iff
proof -
  assume "\<exists>k::int. x = real_of_int k / 10"
  then obtain k :: int where "x = real_of_int k / 10" ..
  then have "x - 1 / 10 = real_of_int (k - 1) / 10" by simp
  then show "\<exists>k::int. x - 1 / 10 = real_of_int k / 10" ..
qed

lemma tenth_below_4:
  assumes "is_tenth x" and "x < 4"
  shows "x + 1 / 10 \<le> 4"
proof -
  from assms(1) obtain k :: int where k: "x = real_of_int k / 10"
    unfolding is_tenth_iff ..
  with assms(2) have "real_of_int k < real_of_int 40" by simp
  then have "k < 40" by (simp only: of_int_less_iff)
  then have "k + 1 \<le> 40" by simp
  then have "real_of_int (k + 1) \<le> real_of_int 40" by (simp only: of_int_le_iff)
  with k show ?thesis by simp
qed

lemma tenth_above_fifth:
  assumes "is_tenth x" and "2 / 10 < x"
  shows "2 / 10 \<le> x - 1 / 10"
proof -
  from assms(1) obtain k :: int where k: "x = real_of_int k / 10"
    unfolding is_tenth_iff ..
  with assms(2) have "real_of_int 2 < real_of_int k" by simp
  then have "2 < k" by (simp only: of_int_less_iff)
  then have "2 \<le> k - 1" by simp
  then have "real_of_int 2 \<le> real_of_int (k - 1)" by (simp only: of_int_le_iff)
  with k show ?thesis by simp
qed

subsection \<open>Zoom levels\<close>

lemma zoomLevel_zoomIn_Num:
  assumes "zoomLevel s = Num l"
  shows "zoomLevel (zoomIn s) = Num (real_of_int (round_half_up (min (l + 1 / 10) 4 * 10)) / 10)"
  using assms by (simp add: zoomIn_def Let_def)

lemma zoomLevel_zoomOut_Num:
  assumes "zoomLevel s = Num l"
  shows "zoomLevel (zoomOut s) =
    Num (real_of_int (round_half_up (max (l - 1 / 10) (2 / 10) * 10)) / 10)"
  using assms by (simp add: zoomOut_def js_sub_def Let_def)

lemma zoomIn_not_finite:
  "zoomLevel s = PosInfinity \<Longrightarrow> zoomLevel (zoomIn s) = Num 4"
  "zoomLevel s = NegInfinity \<Longrightarrow> zoomLevel (zoomIn s) = NegInfinity"
  "zoomLevel s = NaN \<Longrightarrow> zoomLevel (zoomIn s) = NaN"
  by (simp_all add: zoomIn_def Let_def signed_infinity_def round_half_up_def)

lemma zoomOut_not_finite:
  "zoomLevel s = PosInfinity \<Longrightarrow> zoomLevel (zoomOut s) = PosInfinity"
  "zoomLevel s = NegInfinity \<Longrightarrow> zoomLevel (zoomOut s) = Num (2 / 10)"
  "zoomLevel s = NaN \<Longrightarrow> zoomLevel (zoomOut s) = NaN"
  by (simp_all add: zoomOut_def js_sub_def Let_def signed_infinity_def round_half_up_def)

lemma zoomIn_step:
  assumes "zoomLevel s = Num l" and "is_tenth l" and "l < 4"
  shows "zoomLevel (zoomIn s) = Num (l + 1 / 10)"
proof -
  have "min (l + 1 / 10) 4 = l + 1 / 10"
    using tenth_below_4 [OF assms(2,3)] by simp
  then show ?thesis
    using quantize_fixed [OF is_tenth_add [OF assms(2)]]
    by (simp add: zoomLevel_zoomIn_Num [OF assms(1)])
qed

lemma zoomOut_step:
  assumes "zoomLevel s = Num l" and "is_tenth l" and "2 / 10 < l"
  shows "zoomLevel (zoomOut s) = Num (l - 1 / 10)"
proof -
  have "max (l - 1 / 10) (2 / 10) = l - 1 / 10"
    using tenth_above_fifth [OF assms(2,3)] by simp
  then show ?thesis
    using quantize_fixed [OF is_tenth_sub [OF assms(2)]]
    by (simp add: zoomLevel_zoomOut_Num [OF assms(1)])
qed

lemma zoomIn_at_max: "zoomLevel s = Num 4 \<Longrightarrow> zoomIn s = s"
  by (simp add: zoomIn_def Let_def round_half_up_def)

lemma zoomOut_at_min: "zoomLevel s = Num (2 / 10) \<Longrightarrow> zoomOut s = s"
  by (simp add: zoomOut_def js_sub_def Let_def round_half_up_def)

lemma zoomIn_finite:
  assumes "zoomLevel s = Num l"
  shows "multiple_of_tenth (zoomLevel (zoomIn s))"
    and "\<exists>l'. zoomLevel (zoomIn s) = Num l' \<and> l' \<le> 4 \<and> (2 / 10 \<le> l \<longrightarrow> 2 / 10 \<le> l')"
proof -
  let ?l' = "real_of_int (round_half_up (min (l + 1 / 10) 4 * 10)) / 10"
  have lvl: "zoomLevel (zoomIn s) = Num ?l'" using assms by (rule zoomLevel_zoomIn_Num)
  show "multiple_of_tenth (zoomLevel (zoomIn s))"
    unfolding lvl by (simp add: multiple_of_tenth_def quantize_tenth)
  have up: "?l' \<le> 4" by (rule quantize_upper) simp
  have low: "2 / 10 \<le> ?l'" if "2 / 10 \<le> l"
    using that by (intro quantize_lower) simp
  from lvl up low
  show "\<exists>l'. zoomLevel (zoomIn s) = Num l' \<and> l' \<le> 4 \<and> (2 / 10 \<le> l \<longrightarrow> 2 / 10 \<le> l')"
    by blast
qed

lemma zoomOut_finite:
  assumes "zoomLevel s = Num l"
  shows "multiple_of_tenth (zoomLevel (zoomOut s))"
    and "\<exists>l'. zoomLevel (zoomOut s) = Num l' \<and> 2 / 10 \<le> l' \<and> (l \<le> 4 \<longrightarrow> l' \<le> 4)"
proof -
  let ?l' = "real_of_int (round_half_up (max (l - 1 / 10) (2 / 10) * 10)) / 10"
  have lvl: "zoomLevel (zoomOut s) = Num ?l'" using assms by (rule zoomLevel_zoomOut_Num)
  show "multiple_of_tenth (zoomLevel (zoomOut s))"
    unfolding lvl by (simp add: multiple_of_tenth_def quantize_tenth)
  have low: "2 / 10 \<le> ?l'" by (rule quantize_lower) simp
  have up: "?l' \<le> 4" if "l \<le> 4"
    using that by (intro quantize_upper) simp
  from lvl up low
  show "\<exists>l'. zoomLevel (zoomOut s) = Num l' \<and> 2 / 10 \<le> l' \<and> (l \<le> 4 \<longrightarrow> l' \<le> 4)"
    by blast
qed

text \<open>Clamping to \<open>[0.2, 4]\<close> and rounding, as the pinch update applies them to a product.\<close>

lemma clamp_and_quantize:
  fixes P :: jsnum
  defines "L \<equiv> js_div (Math_round (js_mul (Math_max (Num (2 / 10)) (Math_min (Num 4) P))
                   (Num 10))) (Num 10)"
  shows "if P = NaN then L = NaN else zoom_in_bounds L \<and> multiple_of_tenth L"
proof (cases P)
  case (Num x)
  have "in_zoom_range (real_of_int (round_half_up (max (2 / 10) (min 4 x) * 10)) / 10)"
    by (rule quantize_bounds) simp_all
  with Num show ?thesis
    by (simp add: L_def zoom_in_bounds_def multiple_of_tenth_def quantize_tenth)
next
  case PosInfinity
  then show ?thesis
    by (simp add: L_def zoom_in_bounds_def multiple_of_tenth_def in_zoom_range_def
        is_tenth_def round_half_up_def)
next
  case NegInfinity
  then show ?thesis
    by (simp add: L_def zoom_in_bounds_def multiple_of_tenth_def in_zoom_range_def
        is_tenth_def round_half_up_def)
next
  case NaN
  then show ?thesis by (simp add: L_def)
qed

lemma zoomLevel_touchmove:
  assumes "in_container e" and "touch_points e = [(x1, y1), (x2, y2)]"
    and "initialPinchDistance s > 0"
  shows "zoomLevel (touchmove e s) =
    js_div (Math_round (js_mul (Math_max (Num (2 / 10)) (Math_min (Num 4)
      (js_mul (initialZoomLevel s)
         (Num (Math_hypot (x2 - x1) (y2 - y1) / initialPinchDistance s)))))
      (Num 10))) (Num 10)"
  using assms by (simp add: touchmove_def Let_def)

subsection \<open>Fit to screen\<close>

lemma fit_ratio_order:
  fixes W H nw nh :: real
  assumes "0 < H" and "0 < nw" and "0 < nh"
  shows "nw / nh > W / H \<longleftrightarrow> W / nw < H / nh"
proof -
  have "nw / nh > W / H \<longleftrightarrow> W * nh < nw * H"
    using assms by (simp add: field_simps)
  also have "\<dots> \<longleftrightarrow> W / nw < H / nh"
    using assms by (simp add: field_simps)
  finally show ?thesis .
qed

lemma fitToScreen_wide:
  assumes "ch \<noteq> 40" and "nw \<noteq> 0" and "nh \<noteq> 0" and "nw / nh > (cw - 40) / (ch - 40)"
  shows "fitToScreen \<lparr>imageContainer = Some (cw, ch), exerciseImage = Some (nw, nh)\<rparr> s
           = s\<lparr>zoomLevel := Num ((cw - 40) / nw)\<rparr>"
  using assms by (simp add: fitToScreen_def Let_def)

lemma fitToScreen_tall:
  assumes "ch \<noteq> 40" and "nh \<noteq> 0" and "\<not> nw / nh > (cw - 40) / (ch - 40)"
  shows "fitToScreen \<lparr>imageContainer = Some (cw, ch), exerciseImage = Some (nw, nh)\<rparr> s
           = s\<lparr>zoomLevel := Num ((ch - 40) / nh)\<rparr>"
  using assms by (simp add: fitToScreen_def Let_def)

lemma fitToScreen_stores_quotient:
  "fitToScreen \<lparr>imageContainer = Some (cw, ch), exerciseImage = Some (nw, nh)\<rparr> s
     = s\<lparr>zoomLevel := js_div (Num (cw - 40)) (Num nw)\<rparr>
   \<or> fitToScreen \<lparr>imageContainer = Some (cw, ch), exerciseImage = Some (nw, nh)\<rparr> s
     = s\<lparr>zoomLevel := js_div (Num (ch - 40)) (Num nh)\<rparr>"
  by (simp add: fitToScreen_def Let_def)

text \<open>
  C6. For a container larger than the margin of 40 in both directions and an image of
  positive natural size, \<open>fitToScreen\<close> takes the width-bound ratio when the image's
  aspect ratio exceeds the container's and the height-bound ratio otherwise, and the level
  it stores is the smaller of the two candidate ratios, which is the specification's
  \<open>computeFitZoom\<close>.
\<close>

theorem fitToScreen_min_of_candidates:
  assumes "40 < cw" and "40 < ch" and "0 < nw" and "0 < nh"
  shows "(nw / nh > (cw - 40) / (ch - 40) \<longrightarrow>
            fitToScreen \<lparr>imageContainer = Some (cw, ch), exerciseImage = Some (nw, nh)\<rparr> s
              = s\<lparr>zoomLevel := Num ((cw - 40) / nw)\<rparr>)
       \<and> (\<not> nw / nh > (cw - 40) / (ch - 40) \<longrightarrow>
            fitToScreen \<lparr>imageContainer = Some (cw, ch), exerciseImage = Some (nw, nh)\<rparr> s
              = s\<lparr>zoomLevel := Num ((ch - 40) / nh)\<rparr>)
       \<and> fitToScreen \<lparr>imageContainer = Some (cw, ch), exerciseImage = Some (nw, nh)\<rparr> s
            = s\<lparr>zoomLevel := Num (computeFitZoom_spec (cw, ch) (nw, nh) 40)\<rparr>"
proof -
  let ?d = "\<lparr>imageContainer = Some (cw, ch), exerciseImage = Some (nw, nh)\<rparr>"
  have nz: "ch \<noteq> 40" "nw \<noteq> 0" "nh \<noteq> 0" using assms by simp_all
  have H: "0 < ch - 40" using assms(2) by simp
  have wide: "nw / nh > (cw - 40) / (ch - 40) \<Longrightarrow>
      fitToScreen ?d s = s\<lparr>zoomLevel := Num ((cw - 40) / nw)\<rparr>"
    using nz by (rule fitToScreen_wide)
  have tall: "\<not> nw / nh > (cw - 40) / (ch - 40) \<Longrightarrow>
      fitToScreen ?d s = s\<lparr>zoomLevel := Num ((ch - 40) / nh)\<rparr>"
    using nz(1,3) by (rule fitToScreen_tall)
  have spec: "fitToScreen ?d s = s\<lparr>zoomLevel := Num (computeFitZoom_spec (cw, ch) (nw, nh) 40)\<rparr>"
  proof (cases "nw / nh > (cw - 40) / (ch - 40)")
    case True
    then have "(cw - 40) / nw < (ch - 40) / nh"
      using fit_ratio_order [OF H assms(3,4)] by simp
    then have "computeFitZoom_spec (cw, ch) (nw, nh) 40 = (cw - 40) / nw"
      by (simp add: computeFitZoom_spec_def)
    with wide [OF True] show ?thesis by simp
  next
    case False
    then have "\<not> (cw - 40) / nw < (ch - 40) / nh"
      using fit_ratio_order [OF H assms(3,4)] by simp
    then have "computeFitZoom_spec (cw, ch) (nw, nh) 40 = (ch - 40) / nh"
      by (simp add: computeFitZoom_spec_def)
    with tall [OF False] show ?thesis by simp
  qed
  from wide tall spec show ?thesis by blast
qed

text \<open>
  Container \<open>(1000, 500)\<close> with content \<open>(2000, 500)\<close>: the width-bound ratio
  \<open>960 / 2000\<close> is stored, not the height-bound \<open>460 / 500\<close>.
\<close>

theorem fitToScreen_min_of_candidates_witness:
  "(40::real) < 1000 \<and> (40::real) < 500 \<and> (0::real) < 2000 \<and> (0::real) < 500
   \<and> (2000::real) / 500 > (1000 - 40) / (500 - 40)
   \<and> fitToScreen \<lparr>imageContainer = Some (1000, 500), exerciseImage = Some (2000, 500)\<rparr> initial_state
        = initial_state\<lparr>zoomLevel := Num ((1000 - 40) / 2000)\<rparr>
   \<and> computeFitZoom_spec (1000, 500) (2000, 500) 40 = (1000 - 40) / 2000
   \<and> (1000 - 40) / 2000 \<noteq> ((500 - 40) / 500 :: real)"
proof -
  have h: "(40::real) < 1000" "(40::real) < 500" "(0::real) < 2000" "(0::real) < 500"
    by simp_all
  have r: "(2000::real) / 500 > (1000 - 40) / (500 - 40)" by simp
  have c: "computeFitZoom_spec (1000, 500) (2000, 500) 40 = (1000 - 40) / 2000"
    by (simp add: computeFitZoom_spec_def)
  show ?thesis
    using h r c fitToScreen_min_of_candidates [OF h, of initial_state] by simp
qed

text \<open>
  A container of \<open>140 \<times> 140\<close> with an image of \<open>4000 \<times> 4000\<close>: \<open>fitToScreen\<close>
  stores \<open>1 / 40\<close>, below \<open>0.2\<close> and no multiple of \<open>0.1\<close>, and \<open>zoomIn\<close> from there
  stores \<open>0.1\<close>, still below \<open>0.2\<close>.
\<close>

theorem fitToScreen_level_counterexample:
  "fitToScreen \<lparr>imageContainer = Some (140, 140), exerciseImage = Some (4000, 4000)\<rparr> initial_state
     = initial_state\<lparr>zoomLevel := Num (1 / 40)\<rparr>
   \<and> \<not> zoom_in_bounds (zoomLevel (initial_state\<lparr>zoomLevel := Num (1 / 40)\<rparr>))
   \<and> \<not> multiple_of_tenth (zoomLevel (initial_state\<lparr>zoomLevel := Num (1 / 40)\<rparr>))
   \<and> zoomLevel (zoomIn (initial_state\<lparr>zoomLevel := Num (1 / 40)\<rparr>)) = Num (1 / 10)
   \<and> \<not> zoom_in_bounds (zoomLevel (zoomIn (initial_state\<lparr>zoomLevel := Num (1 / 40)\<rparr>)))"
  by (simp add: fitToScreen_def zoomIn_def Let_def zoom_in_bounds_def multiple_of_tenth_def
      in_zoom_range_def is_tenth_def round_half_up_def)

text \<open>
  C1, as the code has it. The pinch update stores a multiple of \<open>0.1\<close> within
  \<open>[0.2, 4]\<close>, unless the level captured at the start of the gesture times the scale is
  \<open>NaN\<close>, which it then stores; a finite captured level never gives \<open>NaN\<close>. From a finite
  level \<open>zoomIn\<close> and \<open>zoomOut\<close> store a multiple of \<open>0.1\<close>; \<open>zoomIn\<close> never exceeds \<open>4\<close>
  and stays at or above \<open>0.2\<close> when the level was so before, \<open>zoomOut\<close> never falls below
  \<open>0.2\<close> and stays at or below \<open>4\<close> when the level was so before. From a multiple of
  \<open>0.1\<close>, \<open>zoomIn\<close> adds exactly \<open>0.1\<close> below \<open>4\<close> and leaves \<open>4\<close> unchanged, \<open>zoomOut\<close>
  subtracts exactly \<open>0.1\<close> above \<open>0.2\<close> and leaves \<open>0.2\<close> unchanged. \<open>fitToScreen\<close> stores
  one of the two quotients as JavaScript computes it, neither clamped nor rounded, so
  also \<open>Infinity\<close>, \<open>-Infinity\<close> or \<open>NaN\<close> on a zero divisor. From \<open>Infinity\<close>, \<open>zoomIn\<close>
  stores \<open>4\<close> and \<open>zoomOut\<close> stores \<open>Infinity\<close>; from \<open>-Infinity\<close>, \<open>zoomIn\<close> stores
  \<open>-Infinity\<close> and \<open>zoomOut\<close> stores \<open>0.2\<close>; from \<open>NaN\<close> both store \<open>NaN\<close>.
\<close>

theorem zoom_levels_after_operations:
  "(in_container e \<and> touch_points e = [(x1, y1), (x2, y2)] \<and> initialPinchDistance sp > 0 \<longrightarrow>
      (if js_mul (initialZoomLevel sp)
            (Num (Math_hypot (x2 - x1) (y2 - y1) / initialPinchDistance sp)) = NaN
       then zoomLevel (touchmove e sp) = NaN
       else zoom_in_bounds (zoomLevel (touchmove e sp))
          \<and> multiple_of_tenth (zoomLevel (touchmove e sp))))
   \<and> (in_container e \<and> touch_points e = [(x1, y1), (x2, y2)] \<and> initialPinchDistance sp > 0
        \<and> initialZoomLevel sp = Num l0 \<longrightarrow>
      zoom_in_bounds (zoomLevel (touchmove e sp))
      \<and> multiple_of_tenth (zoomLevel (touchmove e sp)))
   \<and> (zoomLevel s = Num l \<longrightarrow>
        multiple_of_tenth (zoomLevel (zoomIn s))
      \<and> (\<exists>l'. zoomLevel (zoomIn s) = Num l' \<and> l' \<le> 4 \<and> (2 / 10 \<le> l \<longrightarrow> 2 / 10 \<le> l'))
      \<and> multiple_of_tenth (zoomLevel (zoomOut s))
      \<and> (\<exists>l'. zoomLevel (zoomOut s) = Num l' \<and> 2 / 10 \<le> l' \<and> (l \<le> 4 \<longrightarrow> l' \<le> 4))
      \<and> (is_tenth l \<and> l < 4 \<longrightarrow> zoomLevel (zoomIn s) = Num (l + 1 / 10))
      \<and> (l = 4 \<longrightarrow> zoomIn s = s)
      \<and> (is_tenth l \<and> 2 / 10 < l \<longrightarrow> zoomLevel (zoomOut s) = Num (l - 1 / 10))
      \<and> (l = 2 / 10 \<longrightarrow> zoomOut s = s))
   \<and> (zoomLevel s = PosInfinity \<longrightarrow>
        zoomLevel (zoomIn s) = Num 4 \<and> zoomLevel (zoomOut s) = PosInfinity)
   \<and> (zoomLevel s = NegInfinity \<longrightarrow>
        zoomLevel (zoomIn s) = NegInfinity \<and> zoomLevel (zoomOut s) = Num (2 / 10))
   \<and> (zoomLevel s = NaN \<longrightarrow> zoomLevel (zoomIn s) = NaN \<and> zoomLevel (zoomOut s) = NaN)
   \<and> (fitToScreen \<lparr>imageContainer = Some (cw, ch), exerciseImage = Some (nw, nh)\<rparr> s
         = s\<lparr>zoomLevel := js_div (Num (cw - 40)) (Num nw)\<rparr>
       \<or> fitToScreen \<lparr>imageContainer = Some (cw, ch), exerciseImage = Some (nw, nh)\<rparr> s
         = s\<lparr>zoomLevel := js_div (Num (ch - 40)) (Num nh)\<rparr>)"
proof -
  let ?scale = "Math_hypot (x2 - x1) (y2 - y1) / initialPinchDistance sp"
  have pinch: "in_container e \<and> touch_points e = [(x1, y1), (x2, y2)]
      \<and> initialPinchDistance sp > 0 \<longrightarrow>
      (if js_mul (initialZoomLevel sp) (Num ?scale) = NaN
       then zoomLevel (touchmove e sp) = NaN
       else zoom_in_bounds (zoomLevel (touchmove e sp))
          \<and> multiple_of_tenth (zoomLevel (touchmove e sp)))"
  proof
    assume g: "in_container e \<and> touch_points e = [(x1, y1), (x2, y2)]
      \<and> initialPinchDistance sp > 0"
    then have lvl: "zoomLevel (touchmove e sp) =
      js_div (Math_round (js_mul (Math_max (Num (2 / 10)) (Math_min (Num 4)
        (js_mul (initialZoomLevel sp) (Num ?scale)))) (Num 10))) (Num 10)"
      by (intro zoomLevel_touchmove) simp_all
    show "if js_mul (initialZoomLevel sp) (Num ?scale) = NaN
       then zoomLevel (touchmove e sp) = NaN
       else zoom_in_bounds (zoomLevel (touchmove e sp))
          \<and> multiple_of_tenth (zoomLevel (touchmove e sp))"
      unfolding lvl by (rule clamp_and_quantize)
  qed
  have pinch_finite: "in_container e \<and> touch_points e = [(x1, y1), (x2, y2)]
        \<and> initialPinchDistance sp > 0 \<and> initialZoomLevel sp = Num l0 \<longrightarrow>
      zoom_in_bounds (zoomLevel (touchmove e sp))
      \<and> multiple_of_tenth (zoomLevel (touchmove e sp))"
  proof
    assume g: "in_container e \<and> touch_points e = [(x1, y1), (x2, y2)]
        \<and> initialPinchDistance sp > 0 \<and> initialZoomLevel sp = Num l0"
    then have "js_mul (initialZoomLevel sp) (Num ?scale) \<noteq> NaN" by simp
    with pinch g show "zoom_in_bounds (zoomLevel (touchmove e sp))
      \<and> multiple_of_tenth (zoomLevel (touchmove e sp))"
      by simp
  qed
  have finite: "zoomLevel s = Num l \<longrightarrow>
        multiple_of_tenth (zoomLevel (zoomIn s))
      \<and> (\<exists>l'. zoomLevel (zoomIn s) = Num l' \<and> l' \<le> 4 \<and> (2 / 10 \<le> l \<longrightarrow> 2 / 10 \<le> l'))
      \<and> multiple_of_tenth (zoomLevel (zoomOut s))
      \<and> (\<exists>l'. zoomLevel (zoomOut s) = Num l' \<and> 2 / 10 \<le> l' \<and> (l \<le> 4 \<longrightarrow> l' \<le> 4))
      \<and> (is_tenth l \<and> l < 4 \<longrightarrow> zoomLevel (zoomIn s) = Num (l + 1 / 10))
      \<and> (l = 4 \<longrightarrow> zoomIn s = s)
      \<and> (is_tenth l \<and> 2 / 10 < l \<longrightarrow> zoomLevel (zoomOut s) = Num (l - 1 / 10))
      \<and> (l = 2 / 10 \<longrightarrow> zoomOut s = s)"
  proof
    assume z: "zoomLevel s = Num l"
    have step_in: "zoomLevel (zoomIn s) = Num (l + 1 / 10)" if "is_tenth l \<and> l < 4"
      using z that by (intro zoomIn_step) simp_all
    have step_out: "zoomLevel (zoomOut s) = Num (l - 1 / 10)" if "is_tenth l \<and> 2 / 10 < l"
      using z that by (intro zoomOut_step) simp_all
    have top: "zoomIn s = s" if "l = 4"
      using z that by (intro zoomIn_at_max) simp
    have bottom: "zoomOut s = s" if "l = 2 / 10"
      using z that by (intro zoomOut_at_min) simp
    from zoomIn_finite [OF z] zoomOut_finite [OF z] step_in step_out top bottom
    show "multiple_of_tenth (zoomLevel (zoomIn s))
      \<and> (\<exists>l'. zoomLevel (zoomIn s) = Num l' \<and> l' \<le> 4 \<and> (2 / 10 \<le> l \<longrightarrow> 2 / 10 \<le> l'))
      \<and> multiple_of_tenth (zoomLevel (zoomOut s))
      \<and> (\<exists>l'. zoomLevel (zoomOut s) = Num l' \<and> 2 / 10 \<le> l' \<and> (l \<le> 4 \<longrightarrow> l' \<le> 4))
      \<and> (is_tenth l \<and> l < 4 \<longrightarrow> zoomLevel (zoomIn s) = Num (l + 1 / 10))
      \<and> (l = 4 \<longrightarrow> zoomIn s = s)
      \<and> (is_tenth l \<and> 2 / 10 < l \<longrightarrow> zoomLevel (zoomOut s) = Num (l - 1 / 10))
      \<and> (l = 2 / 10 \<longrightarrow> zoomOut s = s)"
      by blast
  qed
  have pos: "zoomLevel s = PosInfinity \<longrightarrow>
        zoomLevel (zoomIn s) = Num 4 \<and> zoomLevel (zoomOut s) = PosInfinity"
    using zoomIn_not_finite(1) [of s] zoomOut_not_finite(1) [of s] by blast
  have neg: "zoomLevel s = NegInfinity \<longrightarrow>
        zoomLevel (zoomIn s) = NegInfinity \<and> zoomLevel (zoomOut s) = Num (2 / 10)"
    using zoomIn_not_finite(2) [of s] zoomOut_not_finite(2) [of s] by blast
  have nan: "zoomLevel s = NaN \<longrightarrow> zoomLevel (zoomIn s) = NaN \<and> zoomLevel (zoomOut s) = NaN"
    using zoomIn_not_finite(3) [of s] zoomOut_not_finite(3) [of s] by blast
  note fit = fitToScreen_stores_quotient [of cw ch nw nh s]
  from pinch pinch_finite finite pos neg nan fit show ?thesis
    by (intro conjI)
qed

text \<open>
  A pinch from level 1 that doubles the distance stores 2. \<open>zoomIn\<close> and \<open>zoomOut\<close> from
  level 1 store 1.1 and 0.9, and leave 4 and 0.2 as they are. \<open>fitToScreen\<close> in a
  container of \<open>1000 \<times> 500\<close> stores \<open>0.48\<close> for an image of \<open>2000 \<times> 500\<close> and \<open>Infinity\<close>
  for an image that has not loaded; from there \<open>zoomOut\<close> stores \<open>Infinity\<close> and \<open>zoomIn\<close>
  stores 4. A pinch that starts from level \<open>NaN\<close> stores \<open>NaN\<close>.
\<close>

theorem zoom_levels_after_operations_witness:
  "in_container pinch_event \<and> touch_points pinch_event = [(0, 0), (6, 8)]
   \<and> initialPinchDistance pinch_state > 0 \<and> initialZoomLevel pinch_state = Num 1
   \<and> zoomLevel (touchmove pinch_event pinch_state) = Num 2
   \<and> zoom_in_bounds (zoomLevel (touchmove pinch_event pinch_state))
   \<and> multiple_of_tenth (zoomLevel (touchmove pinch_event pinch_state))
   \<and> initialPinchDistance (pinch_state\<lparr>initialZoomLevel := NaN\<rparr>) > 0
   \<and> zoomLevel (touchmove pinch_event (pinch_state\<lparr>initialZoomLevel := NaN\<rparr>)) = NaN
   \<and> zoomLevel initial_state = Num 1 \<and> is_tenth 1
   \<and> zoomLevel (zoomIn initial_state) = Num (11 / 10)
   \<and> zoomLevel (zoomOut initial_state) = Num (9 / 10)
   \<and> zoomIn (initial_state\<lparr>zoomLevel := Num 4\<rparr>) = initial_state\<lparr>zoomLevel := Num 4\<rparr>
   \<and> zoomOut (initial_state\<lparr>zoomLevel := Num (2 / 10)\<rparr>) = initial_state\<lparr>zoomLevel := Num (2 / 10)\<rparr>
   \<and> fitToScreen \<lparr>imageContainer = Some (1000, 500), exerciseImage = Some (2000, 500)\<rparr>
         initial_state = initial_state\<lparr>zoomLevel := Num (12 / 25)\<rparr>
   \<and> fitToScreen \<lparr>imageContainer = Some (1000, 500), exerciseImage = Some (0, 0)\<rparr>
         initial_state = initial_state\<lparr>zoomLevel := PosInfinity\<rparr>
   \<and> zoomLevel (zoomOut (initial_state\<lparr>zoomLevel := PosInfinity\<rparr>)) = PosInfinity
   \<and> zoomLevel (zoomIn (initial_state\<lparr>zoomLevel := PosInfinity\<rparr>)) = Num 4
   \<and> zoomLevel (zoomIn (initial_state\<lparr>zoomLevel := NegInfinity\<rparr>)) = NegInfinity
   \<and> zoomLevel (zoomOut (initial_state\<lparr>zoomLevel := NegInfinity\<rparr>)) = Num (2 / 10)
   \<and> zoomLevel (zoomIn (initial_state\<lparr>zoomLevel := NaN\<rparr>)) = NaN
   \<and> zoomLevel (zoomOut (initial_state\<lparr>zoomLevel := NaN\<rparr>)) = NaN"
proof -
  have a: "in_container pinch_event" "touch_points pinch_event = [(0, 0), (6, 8)]"
    "initialPinchDistance pinch_state > 0" "initialZoomLevel pinch_state = Num 1"
    "initialPinchDistance (pinch_state\<lparr>initialZoomLevel := NaN\<rparr>) > 0"
    "initialZoomLevel (pinch_state\<lparr>initialZoomLevel := NaN\<rparr>) = NaN"
    by (simp_all add: pinch_event_def pinch_state_def initial_state_def)
  have b: "zoomLevel initial_state = Num 1" "is_tenth 1"
    by (simp_all add: initial_state_def is_tenth_def)
  have c: "zoomLevel (initial_state\<lparr>zoomLevel := z\<rparr>) = z" for z
    by simp
  have v: "zoomLevel (touchmove pinch_event pinch_state) = Num 2"
    by (simp add: touchmove_def pinch_event_def pinch_state_def initial_state_def Let_def
        Math_hypot_def round_half_up_def)
  have f1: "fitToScreen \<lparr>imageContainer = Some (1000, 500), exerciseImage = Some (2000, 500)\<rparr>
         initial_state = initial_state\<lparr>zoomLevel := Num (12 / 25)\<rparr>"
    using zoom_levels_after_operations [of pinch_event 0 0 6 8 pinch_state 1 initial_state 1
        1000 500 2000 500]
    by (simp add: fitToScreen_def Let_def)
  have f2: "fitToScreen \<lparr>imageContainer = Some (1000, 500), exerciseImage = Some (0, 0)\<rparr>
         initial_state = initial_state\<lparr>zoomLevel := PosInfinity\<rparr>"
    using zoom_levels_after_operations [of pinch_event 0 0 6 8 pinch_state 1 initial_state 1
        1000 500 0 0]
    by (simp add: fitToScreen_def Let_def signed_infinity_def)
  note t = zoom_levels_after_operations [of pinch_event 0 0 6 8 _ 1 _ _ 0 0 0 0]
  show ?thesis
    using a b c v f1 f2
      t [of pinch_state initial_state 1]
      t [of "pinch_state\<lparr>initialZoomLevel := NaN\<rparr>" "initial_state\<lparr>zoomLevel := Num 4\<rparr>" 4]
      t [of pinch_state "initial_state\<lparr>zoomLevel := Num (2 / 10)\<rparr>" "2 / 10"]
      t [of pinch_state "initial_state\<lparr>zoomLevel := PosInfinity\<rparr>" 1]
      t [of pinch_state "initial_state\<lparr>zoomLevel := NegInfinity\<rparr>" 1]
      t [of pinch_state "initial_state\<lparr>zoomLevel := NaN\<rparr>" 1]
    by simp
qed

subsection \<open>Pointer coordinates\<close>

lemma getCanvasCoords_client:
  assumes "canvas (drawing s) = Some c" and "rect_width c \<noteq> 0" and "rect_height c \<noteq> 0"
    and "eventClient e = Some (cx, cy)"
  shows "getCanvasCoords e s =
    Inr ((cx - rect_left c) * (canvas_width c / rect_width c),
         (cy - rect_top c) * (canvas_height c / rect_height c))"
  using assms by (simp add: getCanvasCoords_def Let_def)

lemma getCanvasCoords_zoom_independent:
  "getCanvasCoords e (s\<lparr>zoomLevel := z\<rparr>) = getCanvasCoords e s"
  by (simp add: getCanvasCoords_def)

text \<open>
  C7. With the canvas in place, a bounding box of positive size and an event that carries
  client coordinates (a first touch, or \<open>clientX\<close> and \<open>clientY\<close>), \<open>getCanvasCoords\<close>
  returns the client point less the origin of the box, scaled per axis by canvas size over
  box size. The top-left corner of the box maps to \<open>(0, 0)\<close>, the bottom-right corner to
  the canvas size, and the zoom level plays no part.
\<close>

theorem getCanvasCoords_maps_to_canvas_pixels:
  assumes "canvas (drawing s) = Some c" and "0 < rect_width c" and "0 < rect_height c"
    and "eventClient e = Some (cx, cy)"
  shows "getCanvasCoords e s =
           Inr ((cx - rect_left c) * (canvas_width c / rect_width c),
                (cy - rect_top c) * (canvas_height c / rect_height c))
       \<and> (cx = rect_left c \<and> cy = rect_top c \<longrightarrow> getCanvasCoords e s = Inr (0, 0))
       \<and> (cx = rect_left c + rect_width c \<and> cy = rect_top c + rect_height c \<longrightarrow>
            getCanvasCoords e s = Inr (canvas_width c, canvas_height c))
       \<and> getCanvasCoords e (s\<lparr>zoomLevel := z\<rparr>) = getCanvasCoords e s"
proof -
  have nz: "rect_width c \<noteq> 0" "rect_height c \<noteq> 0" using assms(2,3) by simp_all
  have formula: "getCanvasCoords e s =
      Inr ((cx - rect_left c) * (canvas_width c / rect_width c),
           (cy - rect_top c) * (canvas_height c / rect_height c))"
    using assms(1) nz assms(4) by (rule getCanvasCoords_client)
  have top_left: "getCanvasCoords e s = Inr (0, 0)" if "cx = rect_left c \<and> cy = rect_top c"
    using formula that by simp
  have bottom_right: "getCanvasCoords e s = Inr (canvas_width c, canvas_height c)"
    if "cx = rect_left c + rect_width c \<and> cy = rect_top c + rect_height c"
    using formula that nz by simp
  from formula top_left bottom_right getCanvasCoords_zoom_independent [where e = e and s = s and z = z]
  show ?thesis by blast
qed

text \<open>
  Native \<open>(800, 600)\<close> displayed at \<open>(400, 300)\<close>: the corners map to \<open>(0, 0)\<close> and
  \<open>(800, 600)\<close>, also at zoom level 2.
\<close>

theorem getCanvasCoords_maps_to_canvas_pixels_witness:
  "canvas (drawing canvas_state) = Some example_canvas
   \<and> 0 < rect_width example_canvas \<and> 0 < rect_height example_canvas
   \<and> canvas_width example_canvas = 800 \<and> canvas_height example_canvas = 600
   \<and> rect_width example_canvas = 400 \<and> rect_height example_canvas = 300
   \<and> eventClient (mouse_at 10 20) = Some (rect_left example_canvas, rect_top example_canvas)
   \<and> getCanvasCoords (mouse_at 10 20) canvas_state = Inr (0, 0)
   \<and> eventClient (mouse_at 410 320) = Some (rect_left example_canvas + rect_width example_canvas,
        rect_top example_canvas + rect_height example_canvas)
   \<and> getCanvasCoords (mouse_at 410 320) canvas_state = Inr (800, 600)
   \<and> getCanvasCoords (mouse_at 410 320) (canvas_state\<lparr>zoomLevel := Num 2\<rparr>) = Inr (800, 600)"
proof -
  have c: "canvas (drawing canvas_state) = Some example_canvas"
    by (simp add: canvas_state_def)
  have r: "0 < rect_width example_canvas" "0 < rect_height example_canvas"
    by (simp_all add: example_canvas_def)
  have v: "canvas_width example_canvas = 800" "canvas_height example_canvas = 600"
    "rect_width example_canvas = 400" "rect_height example_canvas = 300"
    "rect_left example_canvas = 10" "rect_top example_canvas = 20"
    by (simp_all add: example_canvas_def)
  have e1: "eventClient (mouse_at 10 20) = Some (10, 20)"
    and e2: "eventClient (mouse_at 410 320) = Some (410, 320)"
    by (simp_all add: eventClient_def mouse_at_def)
  show ?thesis
    using c r v e1 e2
      getCanvasCoords_maps_to_canvas_pixels [OF c r e1, of "Num 2"]
      getCanvasCoords_maps_to_canvas_pixels [OF c r e2, of "Num 2"]
    by simp
qed

subsection \<open>Answer panel\<close>

lemma selectOption_result:
  assumes "currentExercise s = Some ex"
  shows "selectOption q opt s =
    Inr (s\<lparr>pageAnswers := Some
      ((case pageAnswers s of None \<Rightarrow> Map.empty | Some p \<Rightarrow> p)
        (name ex \<mapsto>
          (if getExerciseAnswers s (name ex) q = Some opt
           then (getExerciseAnswers s (name ex))(q := None)
           else (getExerciseAnswers s (name ex))(q \<mapsto> opt))))\<rparr>)"
  using assms
  by (simp add: selectOption_def getExerciseAnswers_def Let_def split: option.splits)

lemma getExerciseAnswers_update_same:
  "getExerciseAnswers (s\<lparr>pageAnswers := Some (pa(n \<mapsto> m))\<rparr>) n = m"
  by (simp add: getExerciseAnswers_def)

lemma getExerciseAnswers_update_other:
  "n' \<noteq> n \<Longrightarrow>
   getExerciseAnswers (s\<lparr>pageAnswers := Some ((case pageAnswers s of None \<Rightarrow> Map.empty | Some p \<Rightarrow> p)(n \<mapsto> m))\<rparr>) n'
     = getExerciseAnswers s n'"
  by (simp add: getExerciseAnswers_def split: option.splits)

text \<open>
  C2. With an exercise open, \<open>selectOption q opt\<close> returns normally; the entry of question
  \<open>q\<close> of that exercise is removed when it was \<open>opt\<close> (the question leaves the domain of
  the answer map) and is \<open>opt\<close> otherwise, whatever was stored before; every other
  question and every other exercise keeps its entry. The answer map holds at most one
  option per question.
\<close>

theorem selectOption_toggles_one_entry:
  assumes "currentExercise s = Some ex"
  shows "\<exists>s'. selectOption q opt s = Inr s'
     \<and> currentExercise s' = Some ex
     \<and> getExerciseAnswers s' (name ex) q =
         (if getExerciseAnswers s (name ex) q = Some opt then None else Some opt)
     \<and> (getExerciseAnswers s (name ex) q = Some opt \<longrightarrow>
          dom (getExerciseAnswers s' (name ex)) = dom (getExerciseAnswers s (name ex)) - {q})
     \<and> (\<forall>q'. q' \<noteq> q \<longrightarrow> getExerciseAnswers s' (name ex) q' = getExerciseAnswers s (name ex) q')
     \<and> (\<forall>n. n \<noteq> name ex \<longrightarrow> getExerciseAnswers s' n = getExerciseAnswers s n)"
proof -
  let ?m = "getExerciseAnswers s (name ex)"
  let ?m' = "if ?m q = Some opt then ?m(q := None) else ?m(q \<mapsto> opt)"
  let ?s' = "s\<lparr>pageAnswers := Some
      ((case pageAnswers s of None \<Rightarrow> Map.empty | Some p \<Rightarrow> p)(name ex \<mapsto> ?m'))\<rparr>"
  have res: "selectOption q opt s = Inr ?s'"
    using assms by (rule selectOption_result)
  have ex: "currentExercise ?s' = Some ex" using assms by simp
  have same: "getExerciseAnswers ?s' (name ex) = ?m'"
    by (rule getExerciseAnswers_update_same)
  have at_q: "getExerciseAnswers ?s' (name ex) q = (if ?m q = Some opt then None else Some opt)"
    unfolding same by simp
  have others: "getExerciseAnswers ?s' (name ex) q' = ?m q'" if "q' \<noteq> q" for q'
    unfolding same using that by simp
  have removed: "dom (getExerciseAnswers ?s' (name ex)) = dom ?m - {q}" if "?m q = Some opt"
    unfolding same using that by simp
  have frame: "getExerciseAnswers ?s' n = getExerciseAnswers s n" if "n \<noteq> name ex" for n
    using that by (rule getExerciseAnswers_update_other)
  from res ex at_q removed others frame show ?thesis by blast
qed

text \<open>
  Selecting \<open>A\<close>, then \<open>B\<close>, then \<open>B\<close> again for question 1: \<open>A\<close>, then \<open>B\<close>, then no
  entry.
\<close>

theorem selectOption_toggles_one_entry_witness:
  "currentExercise viewer_state = Some example_exercise
   \<and> (\<exists>s1 s2 s3. selectOption 1 ''A'' viewer_state = Inr s1
        \<and> getExerciseAnswers s1 ''Series 1'' 1 = Some ''A''
        \<and> selectOption 1 ''B'' s1 = Inr s2
        \<and> getExerciseAnswers s2 ''Series 1'' 1 = Some ''B''
        \<and> selectOption 1 ''B'' s2 = Inr s3
        \<and> getExerciseAnswers s3 ''Series 1'' 1 = None)"
proof -
  have e: "currentExercise viewer_state = Some example_exercise"
    by (simp add: viewer_state_def)
  have n: "name example_exercise = ''Series 1''" by (simp add: example_exercise_def)
  have u: "getExerciseAnswers viewer_state ''Series 1'' 1 = None"
    by (simp add: getExerciseAnswers_def viewer_state_def initial_state_def)
  from selectOption_toggles_one_entry [OF e, of 1 "''A''"] n u
  obtain s1 where s1: "selectOption 1 ''A'' viewer_state = Inr s1"
    "currentExercise s1 = Some example_exercise"
    "getExerciseAnswers s1 ''Series 1'' 1 = Some ''A''"
    by auto
  from selectOption_toggles_one_entry [OF s1(2), of 1 "''B''"] n s1(3)
  obtain s2 where s2: "selectOption 1 ''B'' s1 = Inr s2"
    "currentExercise s2 = Some example_exercise"
    "getExerciseAnswers s2 ''Series 1'' 1 = Some ''B''"
    by auto
  from selectOption_toggles_one_entry [OF s2(2), of 1 "''B''"] n s2(3)
  obtain s3 where s3: "selectOption 1 ''B'' s2 = Inr s3"
    "getExerciseAnswers s3 ''Series 1'' 1 = None"
    by auto
  from e s1 s2 s3 show ?thesis by blast
qed

subsection \<open>Page navigation\<close>

text \<open>
  Outside the PDF mode the wrappers do what the original functions do: inside the bounds
  they move by one page, at the ends they leave the state as it is.
\<close>

lemma catalogue_navigation:
  assumes "\<not> pdfMode pdf s" and "currentExercise s = Some ex"
    and "1 \<le> currentPage s" and "currentPage s \<le> total_pages ex"
  shows "prevPage env (pdf, s) =
           (pdf, if currentPage s = 1 then s else s\<lparr>currentPage := currentPage s - 1\<rparr>)"
    and "nextPage env (pdf, s) =
           Inr (pdf, if currentPage s = total_pages ex then s
                     else s\<lparr>currentPage := currentPage s + 1\<rparr>)"
  using assms by (auto simp add: prevPage_def nextPage_def originalPrevPage_def originalNextPage_def)

lemma renderPDFPage_cached:
  "cached pdf pageNum \<Longrightarrow> renderPDFPage env pageNum (pdf, s) = (pdf, s)"
  by (simp add: renderPDFPage_def)

lemma renderPDFPage_rendered:
  assumes "pdf_document pdf" and "\<not> cached pdf pageNum"
    and "rendered env pageNum = Some imageData" and "viewer_elements env"
  shows "renderPDFPage env pageNum (pdf, s) =
    (pdf\<lparr>pageCache := (pageCache pdf)(pageNum \<mapsto> imageData), pdf_currentPage := pageNum\<rparr>,
     s\<lparr>currentPage := pageNum\<rparr>)"
  using assms by (simp add: renderPDFPage_def Let_def)

text \<open>
  In the PDF mode a page that is not in the cache and renders becomes the current page; a
  page that is in the cache does not, in either direction.
\<close>

lemma nextPage_pdf_cache_miss:
  assumes "pdfMode pdf s" and "pdf_currentPage pdf < totalPages pdf"
    and "\<not> cached pdf (pdf_currentPage pdf + 1)"
    and "rendered env (pdf_currentPage pdf + 1) = Some imageData" and "viewer_elements env"
  shows "\<exists>pdf'. nextPage env (pdf, s) = Inr (pdf', s\<lparr>currentPage := pdf_currentPage pdf + 1\<rparr>)"
proof -
  from assms(1) have "pdf_document pdf" by (simp add: pdfMode_def)
  from renderPDFPage_rendered [OF this assms(3,4,5)] assms(1,2)
  show ?thesis by (simp add: nextPage_def)
qed

lemma nextPage_pdf_cache_hit:
  assumes "pdfMode pdf s" and "pdf_currentPage pdf < totalPages pdf"
    and "cached pdf (pdf_currentPage pdf + 1)"
  shows "\<exists>pdf'. nextPage env (pdf, s) = Inr (pdf', s)"
  using assms by (simp add: nextPage_def renderPDFPage_cached)

lemma prevPage_pdf_cache_hit:
  assumes "pdfMode pdf s" and "1 < pdf_currentPage pdf"
    and "cached pdf (pdf_currentPage pdf - 1)"
  shows "\<exists>pdf'. prevPage env (pdf, s) = (pdf', s)"
  using assms by (simp add: prevPage_def renderPDFPage_cached)

text \<open>
  C3. A PDF file of three pages is open on page 1, and \<open>preloadAdjacentPages(1)\<close> has
  put page 2 into the cache. \<open>nextPage\<close> then finds page 2 in the cache, shows it and
  returns before \<open>currentPage\<close> is set: the state is what it was, \<open>currentPage\<close> still 1
  and not 2. Had page 2 not been in the cache yet, the same call would have rendered it
  and set \<open>currentPage\<close> to 2.
\<close>

theorem nextPage_on_cached_pdf_page_keeps_currentPage:
  "pdfMode pdf_preloaded pdf_viewer_state
   \<and> currentPage pdf_viewer_state = 1
   \<and> pdf_currentPage pdf_preloaded = 1 \<and> totalPages pdf_preloaded = 3
   \<and> preloadAdjacentPages pdf_rendering 1 pdf_first_page = pdf_preloaded
   \<and> nextPage pdf_rendering (pdf_preloaded, pdf_viewer_state)
       = Inr (pdf_preloaded, pdf_viewer_state)
   \<and> nextPage pdf_rendering (pdf_first_page, pdf_viewer_state)
       = Inr (pdf_second_page, pdf_viewer_state\<lparr>currentPage := 2\<rparr>)"
proof -
  have mode: "pdfMode pdf_preloaded pdf_viewer_state" "pdfMode pdf_first_page pdf_viewer_state"
    by (simp_all add: pdfMode_def pdf_preloaded_def pdf_first_page_def pdf_viewer_state_def
        pdf_exercise_def)
  have page: "currentPage pdf_viewer_state = 1"
    by (simp add: pdf_viewer_state_def initial_state_def)
  have pdf: "pdf_currentPage pdf_preloaded = 1" "totalPages pdf_preloaded = 3"
    "pdf_currentPage pdf_first_page = 1" "totalPages pdf_first_page = 3"
    by (simp_all add: pdf_preloaded_def pdf_first_page_def)
  have digits: "String_of_int 2 = ''2''" "String_of_int 3 = ''3''"
    by (simp_all add: String_of_int_def decimal.simps digit_chars_def)
  have preload: "preloadAdjacentPages pdf_rendering 1 pdf_first_page = pdf_preloaded"
    by (simp add: preloadAdjacentPages_def preloadOne_def cached_def pdf_first_page_def
        pdf_preloaded_def pdf_rendering_def digits fun_upd_twist)
  have hit: "cached pdf_preloaded 2"
    by (simp add: cached_def pdf_preloaded_def)
  have "renderPDFPage pdf_rendering 2 (pdf_preloaded, pdf_viewer_state)
      = (pdf_preloaded, pdf_viewer_state)"
    using hit by (rule renderPDFPage_cached)
  moreover have "preloadAdjacentPages pdf_rendering 1 pdf_preloaded = pdf_preloaded"
    by (simp add: preloadAdjacentPages_def cached_def pdf_preloaded_def)
  ultimately have stuck: "nextPage pdf_rendering (pdf_preloaded, pdf_viewer_state)
       = Inr (pdf_preloaded, pdf_viewer_state)"
    using mode(1) pdf(1,2) by (simp add: nextPage_def)
  have moved: "nextPage pdf_rendering (pdf_first_page, pdf_viewer_state)
       = Inr (pdf_second_page, pdf_viewer_state\<lparr>currentPage := 2\<rparr>)"
    using mode(2) pdf(3,4)
    by (simp add: nextPage_def renderPDFPage_def preloadAdjacentPages_def preloadOne_def
        cached_def pdf_first_page_def pdf_second_page_def pdf_rendering_def digits Let_def
        fun_upd_twist)
  from mode(1) page pdf(1,2) preload stuck moved show ?thesis by simp
qed

subsection \<open>Brush widths\<close>

text \<open>
  C10. \<open>loadBrushSizes\<close> lays the stored widths over the widths in memory: a tool in the
  stored object gets the stored width, any other keeps the width it had, which at start-up
  is the default (pen 4, highlighter 12, eraser 20). A missing or unparseable item changes
  nothing.
\<close>

theorem loadBrushSizes_merges_over_defaults:
  "brushSizes (drawing (loadBrushSizes (Sizes sizes) s)) tool =
     (case sizes tool of Some w \<Rightarrow> Some w | None \<Rightarrow> brushSizes (drawing s) tool)
   \<and> brushSizes (drawing (loadBrushSizes (Sizes sizes) initial_state)) tool =
     (case sizes tool of Some w \<Rightarrow> Some w | None \<Rightarrow> default_brushSizes tool)
   \<and> default_brushSizes ''pen'' = Some 4
   \<and> default_brushSizes ''highlighter'' = Some 12
   \<and> default_brushSizes ''eraser'' = Some 20
   \<and> loadBrushSizes NoItem s = s \<and> loadBrushSizes Unparsable s = s"
  by (simp add: loadBrushSizes_def initial_state_def default_brushSizes_def map_add_def
      split: option.splits)

theorem loadBrushSizes_merges_over_defaults_witness:
  "brushSizes (drawing (loadBrushSizes (Sizes [''highlighter'' \<mapsto> 15]) initial_state)) ''pen'' = Some 4
   \<and> brushSizes (drawing (loadBrushSizes (Sizes [''highlighter'' \<mapsto> 15]) initial_state)) ''highlighter'' = Some 15
   \<and> brushSizes (drawing (loadBrushSizes (Sizes [''highlighter'' \<mapsto> 15]) initial_state)) ''eraser'' = Some 20"
  using loadBrushSizes_merges_over_defaults [of "[''highlighter'' \<mapsto> 15]" initial_state "''pen''"]
    loadBrushSizes_merges_over_defaults [of "[''highlighter'' \<mapsto> 15]" initial_state "''highlighter''"]
    loadBrushSizes_merges_over_defaults [of "[''highlighter'' \<mapsto> 15]" initial_state "''eraser''"]
  by (simp add: initial_state_def default_brushSizes_def)

subsection \<open>Committed page answers\<close>

lemma selectAnswer_rejected:
  assumes "currentExercise s = Some ex" and "alreadyAnswered s (name ex)"
  shows "selectAnswer d a s = Inr s"
  using assms by (simp add: selectAnswer_def Let_def)

lemma selectAnswer_missing_element:
  assumes "currentExercise s = Some ex" and "\<not> alreadyAnswered s (name ex)"
    and "\<not> answer_btn d a \<or> \<not> feedback d"
  shows "selectAnswer d a s = Inl TypeError"
  using assms by (auto simp add: selectAnswer_def Let_def)

lemma selectAnswer_commits:
  assumes "currentExercise s = Some ex" and "\<not> alreadyAnswered s (name ex)"
    and "selectAnswer d a s = Inr s'"
  shows "previousAnswer s' (name ex) =
           Some \<lparr>selected = a, correct = lookupCorrectAnswer s (name ex),
                 wasCorrect = (case lookupCorrectAnswer s (name ex) of
                                 None \<Rightarrow> None | Some ca \<Rightarrow> Some (a = ca))\<rparr>"
    and "currentExercise s' = Some ex"
    and "stats s' = (case lookupCorrectAnswer s (name ex) of
                       None \<Rightarrow> stats s
                     | Some ca \<Rightarrow> if a = ca
                         then (stats s)\<lparr>stat_correct := stat_correct (stats s) + 1\<rparr>
                         else (stats s)\<lparr>stat_incorrect := stat_incorrect (stats s) + 1\<rparr>)"
    and "answer_btn d a" and "feedback d"
proof -
  have dom: "answer_btn d a \<and> feedback d"
    using assms selectAnswer_missing_element [of s ex d a] by auto
  then show "answer_btn d a" and "feedback d" by simp_all
  from assms dom have s': "s' = s\<lparr>stats :=
        (case (case lookupCorrectAnswer s (name ex) of None \<Rightarrow> None | Some ca \<Rightarrow> Some (a = ca)) of
           Some True \<Rightarrow> (stats s)\<lparr>stat_correct := stat_correct (stats s) + 1\<rparr>
         | Some False \<Rightarrow> (stats s)\<lparr>stat_incorrect := stat_incorrect (stats s) + 1\<rparr>
         | None \<Rightarrow> stats s),
      answeredPages := (answeredPages s)
        (name ex \<mapsto> (case answeredPages s (name ex) of None \<Rightarrow> Map.empty | Some m \<Rightarrow> m)
           (pageKey_of s \<mapsto> \<lparr>selected = a, correct = lookupCorrectAnswer s (name ex),
              wasCorrect = (case lookupCorrectAnswer s (name ex) of
                              None \<Rightarrow> None | Some ca \<Rightarrow> Some (a = ca))\<rparr>))\<rparr>"
    by (simp add: selectAnswer_def Let_def)
  show "previousAnswer s' (name ex) =
           Some \<lparr>selected = a, correct = lookupCorrectAnswer s (name ex),
                 wasCorrect = (case lookupCorrectAnswer s (name ex) of
                                 None \<Rightarrow> None | Some ca \<Rightarrow> Some (a = ca))\<rparr>"
    unfolding s' by (simp add: previousAnswer_def pageKey_of_def)
  show "currentExercise s' = Some ex"
    unfolding s' using assms(1) by simp
  show "stats s' = (case lookupCorrectAnswer s (name ex) of
                       None \<Rightarrow> stats s
                     | Some ca \<Rightarrow> if a = ca
                         then (stats s)\<lparr>stat_correct := stat_correct (stats s) + 1\<rparr>
                         else (stats s)\<lparr>stat_incorrect := stat_incorrect (stats s) + 1\<rparr>)"
    unfolding s' by (simp split: option.splits)
qed

lemma selectAnswer_returns:
  assumes "currentExercise s = Some ex" and "answer_btn d a" and "feedback d"
  shows "\<exists>s'. selectAnswer d a s = Inr s'"
  using assms by (simp add: selectAnswer_def Let_def)

lemma selectAnswer_stats_changed:
  assumes "selectAnswer d a s = Inr s'" and "stats s' \<noteq> stats s"
  shows "\<exists>ex. currentExercise s = Some ex \<and> \<not> alreadyAnswered s (name ex)
           \<and> lookupCorrectAnswer s (name ex) \<noteq> None"
proof -
  from assms(1) obtain ex where ex: "currentExercise s = Some ex"
    by (cases "currentExercise s") (simp_all add: selectAnswer_def)
  have fresh: "\<not> alreadyAnswered s (name ex)"
  proof
    assume "alreadyAnswered s (name ex)"
    with ex have "selectAnswer d a s = Inr s" by (rule selectAnswer_rejected)
    with assms show False by simp
  qed
  have "lookupCorrectAnswer s (name ex) \<noteq> None"
  proof
    assume "lookupCorrectAnswer s (name ex) = None"
    with selectAnswer_commits(3) [OF ex fresh assms(1)] have "stats s' = stats s" by simp
    with assms(2) show False by simp
  qed
  with ex fresh show ?thesis by blast
qed

lemma lookupCorrectAnswer_present:
  assumes "answers s (categoryName_of s) = Some byExercise"
    and "byExercise n = Some byPage" and "byPage (pageKey_of s) = Some k" and "k \<noteq> []"
  shows "lookupCorrectAnswer s n = Some (toUpperCase k)"
  using assms by (simp add: lookupCorrectAnswer_def)

text \<open>
  C4. Once \<open>selectAnswer b\<close> has returned from a page without a record, the page has a
  record with \<open>selected = b\<close>, and a further \<open>selectAnswer c\<close> on the same exercise and
  page returns the state unchanged: record, \<open>answeredPages\<close> and counters as after the
  first commit. The same holds in any later state in which the page still has its record.
\<close>

theorem selectAnswer_rejects_second_commit:
  assumes "currentExercise s = Some ex" and "\<not> alreadyAnswered s (name ex)"
    and "selectAnswer d b s = Inr s1"
  shows "(\<exists>r. previousAnswer s1 (name ex) = Some r \<and> selected r = b)
       \<and> selectAnswer d' c s1 = Inr s1
       \<and> (currentExercise t = Some ex \<and> previousAnswer t (name ex) \<noteq> None \<longrightarrow>
            selectAnswer d' c t = Inr t)"
proof -
  from selectAnswer_commits(1) [OF assms]
  have rec: "\<exists>r. previousAnswer s1 (name ex) = Some r \<and> selected r = b" by simp
  then have "alreadyAnswered s1 (name ex)" by (auto simp add: alreadyAnswered_def)
  with selectAnswer_commits(2) [OF assms] have second: "selectAnswer d' c s1 = Inr s1"
    by (rule selectAnswer_rejected)
  have later: "selectAnswer d' c t = Inr t"
    if "currentExercise t = Some ex \<and> previousAnswer t (name ex) \<noteq> None"
    using that by (intro selectAnswer_rejected [of t ex]) (simp_all add: alreadyAnswered_def)
  from rec second later show ?thesis by blast
qed

lemma viewer_state_facts:
  "currentExercise (keyed_state k) = Some example_exercise"
  "currentExercise viewer_state = Some example_exercise"
  "name example_exercise = ''Series 1''"
  "pageKey_of (keyed_state k) = ''1''"
  "pageKey_of viewer_state = ''1''"
  "categoryName_of (keyed_state k) = ''Verbal''"
  "\<not> alreadyAnswered (keyed_state k) ''Series 1''"
  "\<not> alreadyAnswered viewer_state ''Series 1''"
  "stats (keyed_state k) = \<lparr>stat_correct = 0, stat_incorrect = 0\<rparr>"
  "stats viewer_state = \<lparr>stat_correct = 0, stat_incorrect = 0\<rparr>"
  "answeredPages (keyed_state k) = Map.empty"
  "answeredPages viewer_state = Map.empty"
  "lookupCorrectAnswer viewer_state ''Series 1'' = None"
  "answers (keyed_state k) ''Verbal'' = Some [''Series 1'' \<mapsto> [''1'' \<mapsto> k]]"
  by (simp_all add: keyed_state_def viewer_state_def initial_state_def example_exercise_def
      pageKey_of_def categoryName_of_def String_of_int_def decimal.simps digit_chars_def
      alreadyAnswered_def
      previousAnswer_def lookupCorrectAnswer_def)

lemma selectAnswer_keyed_state:
  "k \<noteq> [] \<Longrightarrow> selectAnswer answer_page a (keyed_state k) =
     Inr (committed_state (keyed_state k) (if a = toUpperCase k then 1 else 0)
            (if a = toUpperCase k then 0 else 1)
            \<lparr>selected = a, correct = Some (toUpperCase k), wasCorrect = Some (a = toUpperCase k)\<rparr>)"
  by (simp add: selectAnswer_def Let_def viewer_state_facts lookupCorrectAnswer_def
      answer_page_def committed_state_def)

lemma selectAnswer_viewer_state:
  "selectAnswer answer_page a viewer_state =
     Inr (committed_state viewer_state 0 0 \<lparr>selected = a, correct = None, wasCorrect = None\<rparr>)"
  by (simp add: selectAnswer_def Let_def viewer_state_facts answer_page_def committed_state_def)

theorem selectAnswer_rejects_second_commit_witness:
  "currentExercise viewer_state = Some example_exercise
   \<and> \<not> alreadyAnswered viewer_state (name example_exercise)
   \<and> selectAnswer answer_page ''B'' viewer_state
       = Inr (committed_state viewer_state 0 0 \<lparr>selected = ''B'', correct = None, wasCorrect = None\<rparr>)
   \<and> selectAnswer answer_page ''C''
       (committed_state viewer_state 0 0 \<lparr>selected = ''B'', correct = None, wasCorrect = None\<rparr>)
       = Inr (committed_state viewer_state 0 0 \<lparr>selected = ''B'', correct = None, wasCorrect = None\<rparr>)"
proof -
  have e: "currentExercise viewer_state = Some example_exercise"
    by (rule viewer_state_facts)
  have f: "\<not> alreadyAnswered viewer_state (name example_exercise)"
    by (simp add: viewer_state_facts)
  have r: "selectAnswer answer_page ''B'' viewer_state
       = Inr (committed_state viewer_state 0 0 \<lparr>selected = ''B'', correct = None, wasCorrect = None\<rparr>)"
    by (rule selectAnswer_viewer_state)
  from selectAnswer_rejects_second_commit [OF e f r, of answer_page "''C''" viewer_state] e f r
  show ?thesis by simp
qed

text \<open>
  C5, as the code has it. For a page without a record and a non-empty answer-key entry
  \<open>k\<close>, \<open>selectAnswer\<close> records \<open>correct = toUpperCase k\<close> and judges the selection by
  strict equality with it: \<open>wasCorrect\<close> is true exactly when the selected letter equals
  the upper-cased key. The case of the key is ignored, the case of the selection is not.
  The counter of correct or of incorrect answers goes up by one accordingly.
\<close>

theorem selectAnswer_compares_with_uppercased_key:
  assumes "currentExercise s = Some ex" and "\<not> alreadyAnswered s (name ex)"
    and "answer_btn d answer" and "feedback d"
    and "answers s (categoryName_of s) = Some byExercise"
    and "byExercise (name ex) = Some byPage"
    and "byPage (pageKey_of s) = Some k" and "k \<noteq> []"
  shows "\<exists>s'. selectAnswer d answer s = Inr s'
     \<and> previousAnswer s' (name ex) =
         Some \<lparr>selected = answer, correct = Some (toUpperCase k),
               wasCorrect = Some (answer = toUpperCase k)\<rparr>
     \<and> stats s' = (if answer = toUpperCase k
                   then (stats s)\<lparr>stat_correct := stat_correct (stats s) + 1\<rparr>
                   else (stats s)\<lparr>stat_incorrect := stat_incorrect (stats s) + 1\<rparr>)"
proof -
  have key: "lookupCorrectAnswer s (name ex) = Some (toUpperCase k)"
    using assms(5-8) by (rule lookupCorrectAnswer_present)
  from selectAnswer_returns [OF assms(1,3,4)]
  obtain s' where s': "selectAnswer d answer s = Inr s'" ..
  note c = selectAnswer_commits(1,3) [OF assms(1,2) s']
  from c(1) key have "previousAnswer s' (name ex) =
         Some \<lparr>selected = answer, correct = Some (toUpperCase k),
               wasCorrect = Some (answer = toUpperCase k)\<rparr>"
    by simp
  moreover from c(2) key have "stats s' = (if answer = toUpperCase k
                   then (stats s)\<lparr>stat_correct := stat_correct (stats s) + 1\<rparr>
                   else (stats s)\<lparr>stat_incorrect := stat_incorrect (stats s) + 1\<rparr>)"
    by simp
  ultimately show ?thesis using s' by blast
qed

text \<open>Key \<open>b\<close>, selection \<open>B\<close>: judged correct.\<close>

theorem selectAnswer_compares_with_uppercased_key_witness:
  "currentExercise (keyed_state ''b'') = Some example_exercise
   \<and> \<not> alreadyAnswered (keyed_state ''b'') (name example_exercise)
   \<and> answer_btn answer_page ''B'' \<and> feedback answer_page
   \<and> answers (keyed_state ''b'') (categoryName_of (keyed_state ''b''))
       = Some [''Series 1'' \<mapsto> [''1'' \<mapsto> ''b'']]
   \<and> toUpperCase ''b'' = ''B''
   \<and> (\<exists>s'. selectAnswer answer_page ''B'' (keyed_state ''b'') = Inr s'
        \<and> previousAnswer s' ''Series 1'' =
            Some \<lparr>selected = ''B'', correct = Some ''B'', wasCorrect = Some True\<rparr>
        \<and> stats s' = \<lparr>stat_correct = 1, stat_incorrect = 0\<rparr>)"
proof -
  have e: "currentExercise (keyed_state ''b'') = Some example_exercise"
    by (rule viewer_state_facts)
  have f: "\<not> alreadyAnswered (keyed_state ''b'') (name example_exercise)"
    by (simp add: viewer_state_facts)
  have d: "answer_btn answer_page ''B''" "feedback answer_page"
    by (simp_all add: answer_page_def)
  have k: "answers (keyed_state ''b'') (categoryName_of (keyed_state ''b''))
       = Some [''Series 1'' \<mapsto> [''1'' \<mapsto> ''b'']]"
    "[''Series 1'' \<mapsto> [''1'' \<mapsto> ''b'']] (name example_exercise) = Some [''1'' \<mapsto> ''b'']"
    "[''1'' \<mapsto> ''b''] (pageKey_of (keyed_state ''b'')) = Some ''b''" "''b'' \<noteq> []"
    by (simp_all add: viewer_state_facts)
  have u: "toUpperCase ''b'' = ''B''" by (simp add: toUpperCase_def upper_char_def)
  from selectAnswer_compares_with_uppercased_key [OF e f d k] e f d k(1) u
  show ?thesis by (simp add: viewer_state_facts)
qed

text \<open>
  Key \<open>B\<close>, selection \<open>b\<close>: the same letter ignoring case, yet judged incorrect and
  counted as such.
\<close>

theorem selectAnswer_lowercase_selection_counterexample:
  "toUpperCase ''b'' = toUpperCase ''B''
   \<and> selectAnswer answer_page ''b'' (keyed_state ''B'') =
       Inr (committed_state (keyed_state ''B'') 0 1
              \<lparr>selected = ''b'', correct = Some ''B'', wasCorrect = Some False\<rparr>)"
  by (simp add: selectAnswer_keyed_state toUpperCase_def upper_char_def)

text \<open>
  C9. For a page without a record and without an answer for it in the key,
  \<open>selectAnswer\<close> records \<open>selected\<close> with \<open>correct\<close> and \<open>wasCorrect\<close> both null and leaves
  the counters as they were. Whenever a call of \<open>selectAnswer\<close> changes the counters, the
  page had no record and the key had an answer for it.
\<close>

theorem selectAnswer_without_key_entry:
  assumes "currentExercise s = Some ex" and "\<not> alreadyAnswered s (name ex)"
    and "lookupCorrectAnswer s (name ex) = None"
    and "answer_btn d answer" and "feedback d"
  shows "(\<exists>s'. selectAnswer d answer s = Inr s'
           \<and> previousAnswer s' (name ex) =
               Some \<lparr>selected = answer, correct = None, wasCorrect = None\<rparr>
           \<and> stats s' = stats s)
       \<and> (selectAnswer d2 a2 t = Inr t' \<and> stats t' \<noteq> stats t \<longrightarrow>
            (\<exists>e. currentExercise t = Some e \<and> \<not> alreadyAnswered t (name e)
               \<and> lookupCorrectAnswer t (name e) \<noteq> None))"
proof -
  from selectAnswer_returns [OF assms(1,4,5)]
  obtain s' where s': "selectAnswer d answer s = Inr s'" ..
  note c = selectAnswer_commits(1,3) [OF assms(1,2) s']
  from c assms(3) have "previousAnswer s' (name ex) =
      Some \<lparr>selected = answer, correct = None, wasCorrect = None\<rparr>" and "stats s' = stats s"
    by simp_all
  with s' have first: "\<exists>s'. selectAnswer d answer s = Inr s'
           \<and> previousAnswer s' (name ex) =
               Some \<lparr>selected = answer, correct = None, wasCorrect = None\<rparr>
           \<and> stats s' = stats s"
    by blast
  from first selectAnswer_stats_changed [of d2 a2 t t'] show ?thesis by blast
qed

theorem selectAnswer_without_key_entry_witness:
  "currentExercise viewer_state = Some example_exercise
   \<and> \<not> alreadyAnswered viewer_state (name example_exercise)
   \<and> answers viewer_state = Map.empty
   \<and> lookupCorrectAnswer viewer_state (name example_exercise) = None
   \<and> answer_btn answer_page ''A'' \<and> feedback answer_page
   \<and> (\<exists>s'. selectAnswer answer_page ''A'' viewer_state = Inr s'
         \<and> previousAnswer s' ''Series 1'' =
             Some \<lparr>selected = ''A'', correct = None, wasCorrect = None\<rparr>
         \<and> stats s' = stats viewer_state)
   \<and> selectAnswer answer_page ''A'' (keyed_state ''A'')
       = Inr (committed_state (keyed_state ''A'') 1 0
                \<lparr>selected = ''A'', correct = Some ''A'', wasCorrect = Some True\<rparr>)
   \<and> stats (committed_state (keyed_state ''A'') 1 0
                \<lparr>selected = ''A'', correct = Some ''A'', wasCorrect = Some True\<rparr>)
       \<noteq> stats (keyed_state ''A'')
   \<and> lookupCorrectAnswer (keyed_state ''A'') ''Series 1'' \<noteq> None"
proof -
  have e: "currentExercise viewer_state = Some example_exercise"
    by (rule viewer_state_facts)
  have f: "\<not> alreadyAnswered viewer_state (name example_exercise)"
    by (simp add: viewer_state_facts)
  have a: "answers viewer_state = Map.empty"
    by (simp add: viewer_state_def initial_state_def)
  have l: "lookupCorrectAnswer viewer_state (name example_exercise) = None"
    by (simp add: viewer_state_facts)
  have d: "answer_btn answer_page ''A''" "feedback answer_page"
    by (simp_all add: answer_page_def)
  have r: "selectAnswer answer_page ''A'' (keyed_state ''A'')
       = Inr (committed_state (keyed_state ''A'') 1 0
                \<lparr>selected = ''A'', correct = Some ''A'', wasCorrect = Some True\<rparr>)"
    by (simp add: selectAnswer_keyed_state toUpperCase_def upper_char_def)
  have n: "stats (committed_state (keyed_state ''A'') 1 0
                \<lparr>selected = ''A'', correct = Some ''A'', wasCorrect = Some True\<rparr>)
       \<noteq> stats (keyed_state ''A'')"
    by (simp add: committed_state_def viewer_state_facts)
  from selectAnswer_without_key_entry [OF e f l d, of answer_page "''A''" "keyed_state ''A''"
      "committed_state (keyed_state ''A'') 1 0
         \<lparr>selected = ''A'', correct = Some ''A'', wasCorrect = Some True\<rparr>"]
    e f a l d r n
  show ?thesis by (simp add: viewer_state_facts)
qed

subsection \<open>Keys of the saved drawings\<close>

lemma digit_chars_inj:
  assumes "a < 10" and "b < 10" and "digit_chars ! a = digit_chars ! b"
  shows "a = b"
proof -
  have "distinct digit_chars" and "length digit_chars = 10"
    by (simp_all add: digit_chars_def)
  with assms show ?thesis by (simp add: nth_eq_iff_index_eq)
qed

lemma decimal_small: "n < 10 \<Longrightarrow> decimal n = [digit_chars ! n]"
  by (simp add: decimal.simps [of n])

lemma decimal_large:
  "\<not> n < 10 \<Longrightarrow> decimal n = decimal (n div 10) @ [digit_chars ! (n mod 10)]"
  by (simp add: decimal.simps [of n])

lemma decimal_nonempty: "decimal n \<noteq> []"
  by (cases "n < 10") (simp_all add: decimal_small decimal_large)

lemma set_decimal: "set (decimal n) \<subseteq> set digit_chars"
proof (induction n rule: decimal.induct)
  case (1 n)
  have len: "length digit_chars = 10" by (simp add: digit_chars_def)
  show ?case
  proof (cases "n < 10")
    case True
    then have "digit_chars ! n \<in> set digit_chars" using len by (intro nth_mem) simp
    with True show ?thesis by (simp add: decimal_small)
  next
    case False
    have "digit_chars ! (n mod 10) \<in> set digit_chars" using len by (intro nth_mem) simp
    with False "1.IH" show ?thesis by (simp add: decimal_large)
  qed
qed

lemma decimal_inj: "decimal m = decimal n \<Longrightarrow> m = n"
proof (induction m arbitrary: n rule: decimal.induct)
  case (1 m)
  show ?case
  proof (cases "m < 10")
    case m: True
    show ?thesis
    proof (cases "n < 10")
      case True
      with m "1.prems" have "digit_chars ! m = digit_chars ! n"
        by (simp add: decimal_small)
      with m True show ?thesis by (rule digit_chars_inj)
    next
      case False
      with m "1.prems" have "decimal (n div 10) = []"
        by (simp add: decimal_small decimal_large Cons_eq_append_conv)
      then show ?thesis by (simp add: decimal_nonempty)
    qed
  next
    case m: False
    show ?thesis
    proof (cases "n < 10")
      case True
      with m "1.prems" have "decimal (m div 10) = []"
        by (simp add: decimal_small decimal_large append_eq_Cons_conv)
      then show ?thesis by (simp add: decimal_nonempty)
    next
      case False
      with m "1.prems" have front: "decimal (m div 10) = decimal (n div 10)"
        and last: "digit_chars ! (m mod 10) = digit_chars ! (n mod 10)"
        by (simp_all add: decimal_large)
      from "1.IH" [OF m front] have q: "m div 10 = n div 10" .
      have "m mod 10 = n mod 10" using last by (intro digit_chars_inj) simp_all
      with q show ?thesis by (metis div_mult_mod_eq)
    qed
  qed
qed

lemma minus_not_digit: "CHR ''-'' \<notin> set digit_chars"
  by (simp add: digit_chars_def)

lemma underscore_not_digit: "CHR ''_'' \<notin> set digit_chars"
  by (simp add: digit_chars_def)

lemma String_of_int_inj:
  assumes "String_of_int i = String_of_int j"
  shows "i = j"
proof -
  have no_minus: "CHR ''-'' # xs \<noteq> decimal k" for xs k
  proof
    assume "CHR ''-'' # xs = decimal k"
    then have "CHR ''-'' \<in> set (decimal k)" by (metis list.set_intros(1))
    with set_decimal [of k] minus_not_digit show False by blast
  qed
  consider "i < 0" "j < 0" | "i < 0" "\<not> j < 0" | "\<not> i < 0" "j < 0" | "\<not> i < 0" "\<not> j < 0"
    by blast
  then show ?thesis
  proof cases
    case 1
    with assms have "decimal (nat (- i)) = decimal (nat (- j))"
      by (simp add: String_of_int_def)
    then have "nat (- i) = nat (- j)" by (rule decimal_inj)
    with 1 show ?thesis by simp
  next
    case 2
    with assms have "CHR ''-'' # decimal (nat (- i)) = decimal (nat j)"
      by (simp add: String_of_int_def)
    with no_minus show ?thesis by blast
  next
    case 3
    with assms have "CHR ''-'' # decimal (nat (- j)) = decimal (nat i)"
      by (simp add: String_of_int_def)
    with no_minus show ?thesis by blast
  next
    case 4
    with assms have "decimal (nat i) = decimal (nat j)"
      by (simp add: String_of_int_def)
    then have "nat i = nat j" by (rule decimal_inj)
    with 4 show ?thesis by simp
  qed
qed

lemma String_of_int_no_underscore: "CHR ''_'' \<notin> set (String_of_int p)"
proof -
  have "CHR ''_'' \<notin> set (decimal k)" for k
    using set_decimal [of k] underscore_not_digit by blast
  then show ?thesis by (simp add: String_of_int_def)
qed

lemma append_separator_inj:
  assumes "c \<notin> set u" and "c \<notin> set v" and "a @ c # u = b @ c # v"
  shows "a = b \<and> u = v"
  using assms
proof (induction a arbitrary: b)
  case Nil
  then show ?case by (cases b) auto
next
  case (Cons x a)
  then show ?case by (cases b) auto
qed

lemma drawingKey_inj:
  "drawingKey n p = drawingKey n' p' \<longleftrightarrow> n = n' \<and> p = p'"
proof
  assume "drawingKey n p = drawingKey n' p'"
  then have "n @ CHR ''_'' # String_of_int p = n' @ CHR ''_'' # String_of_int p'"
    by (simp add: drawingKey_def)
  with String_of_int_no_underscore [of p] String_of_int_no_underscore [of p']
  have "n = n' \<and> String_of_int p = String_of_int p'"
    by (rule append_separator_inj)
  then show "n = n' \<and> p = p'" by (auto dest: String_of_int_inj)
next
  assume "n = n' \<and> p = p'"
  then show "drawingKey n p = drawingKey n' p'" by simp
qed

lemma saveDrawing_result:
  assumes "currentExercise s = Some ex" and "canvas (drawing s) = Some c"
  shows "saveDrawing s = s\<lparr>drawing := (drawing s)\<lparr>savedDrawings :=
     (savedDrawings (drawing s))(drawingKey (name ex) (currentPage s) \<mapsto> toDataURL c)\<rparr>\<rparr>"
  using assms by (simp add: saveDrawing_def Let_def)

lemma restoreDrawing_result:
  assumes "currentExercise s = Some ex" and "canvas (drawing s) = Some c" and "ctx (drawing s)"
  shows "restoreDrawing s =
     (case savedDrawings (drawing s) (drawingKey (name ex) (currentPage s)) of
        None \<Rightarrow> None
      | Some savedData \<Rightarrow> if savedData = [] then None else Some savedData)"
  using assms by (simp add: restoreDrawing_def Let_def)

lemma restoreDrawing_reads_one_key:
  assumes "currentExercise s = Some ex" and "currentExercise t = Some ex"
    and "currentPage t = currentPage s"
    and "(canvas (drawing t) = None) = (canvas (drawing s) = None)"
    and "ctx (drawing t) = ctx (drawing s)"
    and "savedDrawings (drawing t) (drawingKey (name ex) (currentPage s))
           = savedDrawings (drawing s) (drawingKey (name ex) (currentPage s))"
  shows "restoreDrawing t = restoreDrawing s"
  using assms by (auto simp add: restoreDrawing_def Let_def split: option.splits)

text \<open>
  C8. With an exercise open and the canvas in place, \<open>saveDrawing\<close> changes nothing but
  the entry of \<open>savedDrawings\<close> under the key of the current exercise and page; the entry
  of every other key, hence of every other exercise and page, stays. Keys of different
  pairs of exercise name and page differ. \<open>restoreDrawing\<close> yields the entry under that
  same key and depends on no other entry.
\<close>

theorem drawings_are_kept_per_exercise_and_page:
  assumes "currentExercise s = Some ex" and "canvas (drawing s) = Some c"
  shows "saveDrawing s = s\<lparr>drawing := (drawing s)\<lparr>savedDrawings :=
           (savedDrawings (drawing s))(drawingKey (name ex) (currentPage s) \<mapsto> toDataURL c)\<rparr>\<rparr>
       \<and> (\<forall>k. k \<noteq> drawingKey (name ex) (currentPage s) \<longrightarrow>
             savedDrawings (drawing (saveDrawing s)) k = savedDrawings (drawing s) k)
       \<and> (\<forall>n p. (n, p) \<noteq> (name ex, currentPage s) \<longrightarrow>
             savedDrawings (drawing (saveDrawing s)) (drawingKey n p)
               = savedDrawings (drawing s) (drawingKey n p))
       \<and> (\<forall>n p n' p'. (drawingKey n p = drawingKey n' p') = (n = n' \<and> p = p'))
       \<and> (ctx (drawing s) \<longrightarrow> restoreDrawing s =
             (case savedDrawings (drawing s) (drawingKey (name ex) (currentPage s)) of
                None \<Rightarrow> None
              | Some savedData \<Rightarrow> if savedData = [] then None else Some savedData))
       \<and> (\<forall>t. currentExercise t = Some ex \<and> currentPage t = currentPage s
               \<and> canvas (drawing t) \<noteq> None \<and> ctx (drawing t) = ctx (drawing s)
               \<and> savedDrawings (drawing t) (drawingKey (name ex) (currentPage s))
                   = savedDrawings (drawing s) (drawingKey (name ex) (currentPage s))
             \<longrightarrow> restoreDrawing t = restoreDrawing s)"
proof -
  let ?key = "drawingKey (name ex) (currentPage s)"
  have res: "saveDrawing s = s\<lparr>drawing := (drawing s)\<lparr>savedDrawings :=
           (savedDrawings (drawing s))(?key \<mapsto> toDataURL c)\<rparr>\<rparr>"
    using assms by (rule saveDrawing_result)
  have frame: "savedDrawings (drawing (saveDrawing s)) k = savedDrawings (drawing s) k"
    if "k \<noteq> ?key" for k
    unfolding res using that by simp
  have pages: "savedDrawings (drawing (saveDrawing s)) (drawingKey n p)
               = savedDrawings (drawing s) (drawingKey n p)"
    if "(n, p) \<noteq> (name ex, currentPage s)" for n p
  proof -
    from that have "drawingKey n p \<noteq> ?key" by (simp add: drawingKey_inj)
    then show ?thesis by (rule frame)
  qed
  have restore: "restoreDrawing s =
             (case savedDrawings (drawing s) ?key of
                None \<Rightarrow> None
              | Some savedData \<Rightarrow> if savedData = [] then None else Some savedData)"
    if "ctx (drawing s)"
    using assms that by (rule restoreDrawing_result)
  have reads: "restoreDrawing t = restoreDrawing s"
    if "currentExercise t = Some ex \<and> currentPage t = currentPage s
               \<and> canvas (drawing t) \<noteq> None \<and> ctx (drawing t) = ctx (drawing s)
               \<and> savedDrawings (drawing t) ?key = savedDrawings (drawing s) ?key" for t
    using assms that by (intro restoreDrawing_reads_one_key [of s ex t]) simp_all
  from res frame pages drawingKey_inj restore reads show ?thesis by blast
qed

text \<open>
  A drawing saved on page 1 of an exercise is restored on page 1 and is not under the key
  of page 2.
\<close>

theorem drawings_are_kept_per_exercise_and_page_witness:
  "currentExercise canvas_state = Some example_exercise
   \<and> canvas (drawing canvas_state) = Some example_canvas
   \<and> currentPage canvas_state = 1
   \<and> drawingKey ''Series 1'' 1 = ''Series 1_1''
   \<and> drawingKey ''Series 1'' 2 = ''Series 1_2''
   \<and> savedDrawings (drawing (saveDrawing canvas_state)) ''Series 1_1''
       = Some ''data:image/png;base64,AAAA''
   \<and> savedDrawings (drawing (saveDrawing canvas_state)) ''Series 1_2'' = None
   \<and> restoreDrawing (saveDrawing canvas_state) = Some ''data:image/png;base64,AAAA''
   \<and> restoreDrawing ((saveDrawing canvas_state)\<lparr>currentPage := 2\<rparr>) = None"
proof -
  have e: "currentExercise canvas_state = Some example_exercise"
    and c: "canvas (drawing canvas_state) = Some example_canvas"
    and p: "currentPage canvas_state = 1"
    and x: "ctx (drawing canvas_state)"
    and d: "savedDrawings (drawing canvas_state) = Map.empty"
    by (simp_all add: canvas_state_def viewer_state_def initial_state_def)
  have n: "name example_exercise = ''Series 1''" by (simp add: example_exercise_def)
  have u: "toDataURL example_canvas = ''data:image/png;base64,AAAA''"
    by (simp add: example_canvas_def)
  have k: "drawingKey ''Series 1'' 1 = ''Series 1_1''" "drawingKey ''Series 1'' 2 = ''Series 1_2''"
    by (simp_all add: drawingKey_def String_of_int_def decimal.simps digit_chars_def)
  note t = drawings_are_kept_per_exercise_and_page [OF e c]
  have saved: "saveDrawing canvas_state = canvas_state\<lparr>drawing := (drawing canvas_state)
      \<lparr>savedDrawings := [''Series 1_1'' \<mapsto> ''data:image/png;base64,AAAA'']\<rparr>\<rparr>"
    using t e c p n u k d by simp
  have r1: "restoreDrawing (saveDrawing canvas_state) = Some ''data:image/png;base64,AAAA''"
    unfolding saved using e c x n k p by (simp add: restoreDrawing_def)
  have r2: "restoreDrawing ((saveDrawing canvas_state)\<lparr>currentPage := 2\<rparr>) = None"
    unfolding saved using e c x n k by (simp add: restoreDrawing_def)
  from e c p k saved r1 r2 show ?thesis by simp
qed


end
